theory Spec2Isabelle
  imports Main "HOL-Library.Sublist"
begin

section \<open>Exceptions\<close>

text \<open>
  The Python exceptions the extract package can raise, by the class an \<^verbatim>\<open>except\<close> clause
  or tenacity's \<^verbatim>\<open>retry_if_exception_type\<close> tests for. \<open>Timeout\<close> and \<open>ConnectionError\<close>
  are the \<^verbatim>\<open>requests\<close> classes (with their subclasses), \<open>HTTPError\<close> carries the status
  code \<^verbatim>\<open>raise_for_status\<close> rejected, \<open>JSONDecodeError\<close> is a body that is not JSON,
  \<open>ProgrammingError\<close> is a statement the database rejects, \<open>TimestampRangeError\<close> is what
  \<^verbatim>\<open>datetime.utcfromtimestamp\<close> raises for a timestamp it cannot represent (\<^verbatim>\<open>ValueError\<close>,
  \<^verbatim>\<open>OverflowError\<close> or \<^verbatim>\<open>OSError\<close>, by magnitude and platform). All of them are subclasses
  of \<^verbatim>\<open>Exception\<close>, so \<^verbatim>\<open>except Exception\<close> catches every value of this type.
\<close>

datatype exn = Timeout | ConnectionError | HTTPError nat | JSONDecodeError
  | AttributeError | KeyError string | ValueError | TypeError | ProgrammingError string
  | TimestampRangeError

section \<open>The loader (loader.py)\<close>

subsection \<open>Staging-table names\<close>

text \<open>
  \<^verbatim>\<open>temp_table = f"_temp_{table}_{int(datetime.utcnow().timestamp())}"\<close>.
  \<^verbatim>\<open>datetime.utcnow()\<close> is a naive datetime, and \<^verbatim>\<open>.timestamp()\<close> on a naive datetime
  reads it in the platform's local time zone and returns a float. A reading of the clock is
  therefore kept with both: the naive UTC value in microseconds, and the float its
  \<^verbatim>\<open>.timestamp()\<close> returns on this platform, given as it is (a finite float is
  \<open>mantissa * 2 ^ exponent\<close>). Nothing is assumed about how the two are related.
  \<^verbatim>\<open>int(...)\<close> truncates the float towards zero, and the f-string writes the integer in
  decimal.
\<close>

record pyfloat =
  mantissa :: int
  exponent :: int

record datetime =
  micros :: int
  timestamp :: pyfloat

definition int_of_float :: "pyfloat \<Rightarrow> int" where
  "int_of_float x =
     (if 0 \<le> exponent x then mantissa x * 2 ^ nat (exponent x)
      else if 0 \<le> mantissa x then mantissa x div 2 ^ nat (- exponent x)
      else - ((- mantissa x) div 2 ^ nat (- exponent x)))"

definition digit_char :: "nat \<Rightarrow> char" where
  "digit_char d = (''0123456789'' ! d)"

function str_nat :: "nat \<Rightarrow> string" where
  "str_nat n = (if n < 10 then [digit_char n] else str_nat (n div 10) @ [digit_char (n mod 10)])"
  by pat_completeness auto
termination by (relation "measure id") auto

declare str_nat.simps [simp del]

definition str_int :: "int \<Rightarrow> string" where
  "str_int i = (if i < 0 then CHR ''-'' # str_nat (nat (- i)) else str_nat (nat i))"

text \<open>The value of a string of decimal digits, as \<^verbatim>\<open>int()\<close> reads it.\<close>

definition digit_val :: "char \<Rightarrow> nat" where
  "digit_val c = length (takeWhile (\<lambda>d. d \<noteq> c) ''0123456789'')"

definition digits_val :: "string \<Rightarrow> nat" where
  "digits_val s = foldl (\<lambda>a c. 10 * a + digit_val c) 0 s"

definition temp_table_name :: "string \<Rightarrow> datetime \<Rightarrow> string" where
  "temp_table_name table now = ''_temp_'' @ table @ ''_'' @ str_int (int_of_float (timestamp now))"

subsection \<open>DataFrames and the store\<close>

text \<open>
  A row maps column names to cells; a DataFrame is its column list and its rows in order.
  The loader never looks inside a cell, so the cell type is a parameter. \<^verbatim>\<open>df.empty\<close> holds
  when either axis has length zero, \<^verbatim>\<open>len(df)\<close> counts rows.
\<close>

type_synonym 'v row = "string \<rightharpoonup> 'v"

record 'v dataframe =
  columns :: "string list"
  records :: "'v row list"

definition df_empty :: "'v dataframe \<Rightarrow> bool" where
  "df_empty df = (columns df = [] \<or> records df = [])"

definition len :: "'v dataframe \<Rightarrow> nat" where
  "len df = length (records df)"

text \<open>
  One row of \<^verbatim>\<open>raw._pipeline_runs\<close> as \<^verbatim>\<open>log_run\<close> binds it; \<^verbatim>\<open>completed_at\<close> is the
  database's own \<^verbatim>\<open>NOW()\<close> and is left out. \<open>error_message\<close> holds the exception whose
  \<^verbatim>\<open>str()\<close> the code stores.
\<close>

record run_record =
  extractor_name :: string
  run_status :: string
  rows_extracted :: nat
  rows_loaded :: nat
  started_at :: datetime
  error_message :: "exn option"

text \<open>
  The database: the data tables by qualified name (\<^verbatim>\<open>schema.table\<close>), each a list of rows,
  and the audit table, \<open>None\<close> when it has not been provisioned.
\<close>

record 'v store =
  tables :: "string \<rightharpoonup> 'v row list"
  pipeline_runs :: "run_record list option"

subsection \<open>The statements \<^verbatim>\<open>upsert\<close> issues\<close>

text \<open>
  \<^verbatim>\<open>upsert\<close> sends three kinds of statement: \<^verbatim>\<open>df.to_sql(name, if_exists="replace")\<close>,
  \<^verbatim>\<open>INSERT INTO target (cols) SELECT cols FROM staging ON CONFLICT (key) DO UPDATE SET ... |
  DO NOTHING\<close>, and \<^verbatim>\<open>DROP TABLE IF EXISTS\<close>. Their meaning on the store follows PostgreSQL:
  a staged row whose key cells equal those of a target row updates the listed columns of that
  row (or is skipped under \<^verbatim>\<open>DO NOTHING\<close>), any other staged row is appended; a
  \<^verbatim>\<open>DO UPDATE\<close> that would touch one row twice is rejected, as is a missing table.
  Key cells are compared by equality, as a primary key compares its (non-null) cells; the
  target's unique constraint on the key columns is taken to exist.
\<close>

datatype on_conflict = DoUpdate "string list" | DoNothing

datatype 'v stmt =
    ToSqlReplace string "string list" "'v row list"
  | InsertSelect string "string list" string "string list" on_conflict
  | DropTableIfExists string

definition key_of :: "string list \<Rightarrow> 'v row \<Rightarrow> 'v option list" where
  "key_of cs r = map r cs"

definition upsert_row :: "string list \<Rightarrow> on_conflict \<Rightarrow> 'v row \<Rightarrow> 'v row list \<Rightarrow> 'v row list" where
  "upsert_row conflict action r T =
     (if \<exists>x \<in> set T. key_of conflict x = key_of conflict r
      then (case action of
              DoNothing \<Rightarrow> T
            | DoUpdate update_cols \<Rightarrow>
                map (\<lambda>x. if key_of conflict x = key_of conflict r
                         then x ++ (r |` set update_cols) else x) T)
      else T @ [r])"

fun exec :: "'v stmt \<Rightarrow> 'v store \<Rightarrow> exn + 'v store" where
  "exec (ToSqlReplace name cols rows) s =
     Inr (s\<lparr>tables := (tables s)(name \<mapsto> map (\<lambda>r. r |` set cols) rows)\<rparr>)"
| "exec (InsertSelect target cols source conflict action) s =
     (case tables s target of
        None \<Rightarrow> Inl (ProgrammingError ''UndefinedTable'')
      | Some T \<Rightarrow>
         (case tables s source of
            None \<Rightarrow> Inl (ProgrammingError ''UndefinedTable'')
          | Some S \<Rightarrow>
             (let staged = map (\<lambda>r. r |` set cols) S in
              if action \<noteq> DoNothing \<and> \<not> distinct (map (key_of conflict) staged)
              then Inl (ProgrammingError ''CardinalityViolation'')
              else Inr (s\<lparr>tables := (tables s)(target \<mapsto> fold (upsert_row conflict action) staged T)\<rparr>))))"
| "exec (DropTableIfExists name) s = Inr (s\<lparr>tables := (tables s)(name := None)\<rparr>)"

fun exec_all :: "'v stmt list \<Rightarrow> 'v store \<Rightarrow> exn + 'v store" where
  "exec_all [] s = Inr s"
| "exec_all (q # qs) s = (case exec q s of Inl e \<Rightarrow> Inl e | Inr s' \<Rightarrow> exec_all qs s')"

text \<open>\<^verbatim>\<open>with self.engine.begin() as conn\<close>: all statements or, on an exception, none.\<close>

definition transaction :: "'v stmt list \<Rightarrow> 'v store \<Rightarrow> (exn + unit) \<times> 'v store" where
  "transaction qs s = (case exec_all qs s of Inl e \<Rightarrow> (Inl e, s) | Inr s' \<Rightarrow> (Inr (), s'))"

subsection \<open>\<^verbatim>\<open>PostgresLoader.upsert\<close> and \<^verbatim>\<open>PostgresLoader.log_run\<close>\<close>

text \<open>
  The body of the \<^verbatim>\<open>with\<close> block, statement by statement. \<^verbatim>\<open>if conflict_columns:\<close> is
  false for \<open>None\<close> and for the empty list; \<^verbatim>\<open>update_cols\<close> are the frame's columns outside
  the conflict key.
\<close>

definition upsert_statements ::
  "'v dataframe \<Rightarrow> string \<Rightarrow> string list option \<Rightarrow> string \<Rightarrow> datetime \<Rightarrow> 'v stmt list" where
  "upsert_statements df table conflict_columns schema now =
     (let full_table = schema @ ''.'' @ table;
          temp_table = temp_table_name table now;
          staging = schema @ ''.'' @ temp_table
      in [ToSqlReplace staging (columns df) (records df)]
         @ (case conflict_columns of
              None \<Rightarrow> []
            | Some cc \<Rightarrow>
               if cc = [] then []
               else (let update_cols = filter (\<lambda>c. c \<notin> set cc) (columns df)
                     in [InsertSelect full_table (columns df) staging cc
                           (if update_cols \<noteq> [] then DoUpdate update_cols else DoNothing)]))
         @ [DropTableIfExists staging])"

definition upsert ::
  "'v dataframe \<Rightarrow> string \<Rightarrow> string list option \<Rightarrow> string \<Rightarrow> datetime \<Rightarrow> 'v store
   \<Rightarrow> (exn + nat) \<times> 'v store" where
  "upsert df table conflict_columns schema now s =
     (if df_empty df then (Inr 0, s)
      else (case transaction (upsert_statements df table conflict_columns schema now) s of
              (Inl e, s') \<Rightarrow> (Inl e, s')
            | (Inr u, s') \<Rightarrow> (Inr (len df), s')))"

text \<open>
  \<^verbatim>\<open>log_run\<close> inserts one audit row inside \<^verbatim>\<open>try\<close>; when the insert fails (here: no audit
  table) the \<^verbatim>\<open>except Exception\<close> branch only logs a warning, so the call never raises.
  Every caller passes \<^verbatim>\<open>started_at\<close>, so its default is not needed.
\<close>

definition log_run ::
  "string \<Rightarrow> string \<Rightarrow> nat \<Rightarrow> nat \<Rightarrow> datetime \<Rightarrow> exn option \<Rightarrow> 'v store \<Rightarrow> 'v store" where
  "log_run name status extracted loaded started err s =
     (case pipeline_runs s of
        None \<Rightarrow> s
      | Some rs \<Rightarrow> s\<lparr>pipeline_runs := Some (rs @
          [\<lparr>extractor_name = name, run_status = status, rows_extracted = extracted,
            rows_loaded = loaded, started_at = started, error_message = err\<rparr>])\<rparr>)"

section \<open>The retrying request client (base\_extractor.py)\<close>

text \<open>
  What the network gives one \<^verbatim>\<open>session.get\<close>: no connection, a timeout, or a response with
  its status code and, when the body is JSON, the parsed body.
\<close>

datatype 'j reply = ConnectFailed | TimedOut | Response nat "'j option"

text \<open>
  The body of \<^verbatim>\<open>_make_request\<close> for one attempt: \<^verbatim>\<open>raise_for_status\<close> raises on 4xx and 5xx,
  \<^verbatim>\<open>response.json()\<close> on a body that is not JSON; both \<^verbatim>\<open>except\<close> clauses log and re-raise.
  \<^verbatim>\<open>_throttle\<close> only sleeps and is left out.
\<close>

definition request_once :: "'j reply \<Rightarrow> exn + 'j" where
  "request_once rp =
     (case rp of
        ConnectFailed \<Rightarrow> Inl ConnectionError
      | TimedOut \<Rightarrow> Inl Timeout
      | Response code body \<Rightarrow>
          if 400 \<le> code \<and> code < 600 then Inl (HTTPError code)
          else (case body of None \<Rightarrow> Inl JSONDecodeError | Some j \<Rightarrow> Inr j))"

text \<open>\<^verbatim>\<open>retry=retry_if_exception_type((requests.Timeout, requests.ConnectionError))\<close>\<close>

fun retryable :: "exn \<Rightarrow> bool" where
  "retryable Timeout = True"
| "retryable ConnectionError = True"
| "retryable e = False"

text \<open>
  \<^verbatim>\<open>wait=wait_exponential(multiplier=1, min=2, max=30)\<close>: tenacity waits
  \<^verbatim>\<open>max(max(0, min), min(multiplier * 2 ** (attempt_number - 1), max))\<close> seconds.
\<close>

definition wait_exponential :: "nat \<Rightarrow> nat" where
  "wait_exponential attempt_number = max (max 0 2) (min (1 * 2 ^ (attempt_number - 1)) 30)"

record 'j fetch_result =
  outcome :: "exn + 'j"
  attempts :: nat
  waits :: "nat list"

text \<open>
  The decorated call. \<open>net n\<close> is what the network gives the \<open>n\<close>-th attempt (counted from 1,
  as tenacity's \<^verbatim>\<open>attempt_number\<close>). After a failed attempt tenacity first asks the retry
  predicate, then \<^verbatim>\<open>stop_after_attempt(settings.max_retries)\<close>, that is
  \<^verbatim>\<open>attempt_number >= max_retries\<close>; with \<^verbatim>\<open>reraise=True\<close> the last exception itself is
  raised. Otherwise it sleeps and calls again.
\<close>

function retry_loop :: "int \<Rightarrow> (nat \<Rightarrow> 'j reply) \<Rightarrow> nat \<Rightarrow> nat list \<Rightarrow> 'j fetch_result" where
  "retry_loop max_retries net attempt_number slept =
     (case request_once (net attempt_number) of
        Inr j \<Rightarrow> \<lparr>outcome = Inr j, attempts = attempt_number, waits = slept\<rparr>
      | Inl e \<Rightarrow>
          if \<not> retryable e then \<lparr>outcome = Inl e, attempts = attempt_number, waits = slept\<rparr>
          else if max_retries \<le> int attempt_number
          then \<lparr>outcome = Inl e, attempts = attempt_number, waits = slept\<rparr>
          else retry_loop max_retries net (attempt_number + 1)
                 (slept @ [wait_exponential attempt_number]))"
  by pat_completeness auto
termination
  by (relation "measure (\<lambda>(m, net, n, sl). nat (m - int n))") auto

declare retry_loop.simps [simp del]

definition make_request :: "int \<Rightarrow> (nat \<Rightarrow> 'j reply) \<Rightarrow> 'j fetch_result" where
  "make_request max_retries net = retry_loop max_retries net 1 []"

text \<open>
  The specification's own classification of failures, in its words: transient are connection
  failure, timeout, 5xx and 429.
\<close>

definition spec_transient :: "exn \<Rightarrow> bool" where
  "spec_transient e =
     (case e of
        Timeout \<Rightarrow> True
      | ConnectionError \<Rightarrow> True
      | HTTPError code \<Rightarrow> (500 \<le> code \<and> code < 600) \<or> code = 429
      | _ \<Rightarrow> False)"

text \<open>Attempt \<open>i\<close> is followed by another one: it failed retryably below the attempt cap.\<close>

definition retried :: "int \<Rightarrow> (nat \<Rightarrow> 'j reply) \<Rightarrow> nat \<Rightarrow> bool" where
  "retried max_retries net i \<longleftrightarrow>
     (case request_once (net i) of Inr j \<Rightarrow> False | Inl e \<Rightarrow> retryable e) \<and> int i < max_retries"

section \<open>The Etherscan source (etherscan\_extractor.py)\<close>

subsection \<open>Python string helpers\<close>

text \<open>\<^verbatim>\<open>str.lower()\<close> on ASCII text.\<close>

definition lower_char :: "char \<Rightarrow> char" where
  "lower_char c =
     (case map_of (zip ''ABCDEFGHIJKLMNOPQRSTUVWXYZ'' ''abcdefghijklmnopqrstuvwxyz'') c of
        None \<Rightarrow> c | Some l \<Rightarrow> l)"

definition lower :: "string \<Rightarrow> string" where
  "lower s = map lower_char s"

text \<open>
  \<^verbatim>\<open>int(s)\<close> for an ASCII string: surrounding whitespace (space, tab, line feed,
  vertical tab, form feed, carriage return) is stripped, one sign is allowed, then decimal
  digits, single underscores allowed between digits; anything else is a \<^verbatim>\<open>ValueError\<close>.
\<close>

definition is_digit :: "char \<Rightarrow> bool" where
  "is_digit c = (c \<in> set ''0123456789'')"

definition is_space :: "char \<Rightarrow> bool" where
  "is_space c = (c \<in> set [CHR '' '', CHR 0x09, CHR 0x0A, CHR 0x0B, CHR 0x0C, CHR 0x0D])"

definition strip :: "string \<Rightarrow> string" where
  "strip s = rev (dropWhile is_space (rev (dropWhile is_space s)))"

definition digits_ok :: "string \<Rightarrow> bool" where
  "digits_ok ds = (ds \<noteq> [] \<and> is_digit (hd ds) \<and> is_digit (last ds)
     \<and> list_all (\<lambda>c. is_digit c \<or> c = CHR ''_'') ds \<and> \<not> sublist ''__'' ds)"

definition py_int :: "string \<Rightarrow> exn + int" where
  "py_int s =
     (case strip s of
        [] \<Rightarrow> Inl ValueError
      | c # r \<Rightarrow>
          if c = CHR ''-'' then
            (if digits_ok r then Inr (- int (digits_val (filter (\<lambda>d. d \<noteq> CHR ''_'') r)))
             else Inl ValueError)
          else if c = CHR ''+'' then
            (if digits_ok r then Inr (int (digits_val (filter (\<lambda>d. d \<noteq> CHR ''_'') r)))
             else Inl ValueError)
          else
            (if digits_ok (c # r) then Inr (int (digits_val (filter (\<lambda>d. d \<noteq> CHR ''_'') (c # r))))
             else Inl ValueError))"

subsection \<open>Raw transactions and normalised rows\<close>

text \<open>
  A raw transaction is a JSON object whose values are strings, as Etherscan sends them. An
  element of a result that is not an object is kept as \<open>Str\<close>: Python iterates a string
  result character by character, \<^verbatim>\<open>.get\<close> on it raises \<^verbatim>\<open>AttributeError\<close> and
  \<^verbatim>\<open>["blockNumber"]\<close> raises \<^verbatim>\<open>TypeError\<close>.
\<close>

type_synonym tx = "string \<rightharpoonup> string"

datatype item = Obj tx | Str string

datatype cell = TextCell string | IntCell int | BoolCell bool | TimeCell int | NullCell

definition dict_get :: "tx \<Rightarrow> string \<Rightarrow> string \<Rightarrow> string" where
  "dict_get d k dflt = (case d k of None \<Rightarrow> dflt | Some v \<Rightarrow> v)"

definition METHOD_NAMES :: "string \<rightharpoonup> string" where
  "METHOD_NAMES = map_of
     [(''0x414bf389'', ''exactInputSingle''),
      (''0xc04b8d59'', ''exactInput''),
      (''0x617ba037'', ''supply''),
      (''0xa415bcad'', ''borrow''),
      (''0x573ade81'', ''repay''),
      (''0x69328dec'', ''withdraw'')]"

text \<open>\<^verbatim>\<open>x or "0"\<close> on a string.\<close>

definition or_zero :: "string \<Rightarrow> string" where
  "or_zero s = (if s = [] then ''0'' else s)"

text \<open>\<^verbatim>\<open>int(tx.get(key, 0))\<close>: the default is already an integer.\<close>

definition int_field :: "tx \<Rightarrow> string \<Rightarrow> exn + int" where
  "int_field d k = (case d k of None \<Rightarrow> Inr 0 | Some s \<Rightarrow> py_int s)"

text \<open>
  The dictionary \<^verbatim>\<open>_parse_transactions\<close> appends for one transaction, its entries
  evaluated in the source's order, so the first failing conversion is the one raised. A
  \<open>TimeCell\<close> holds the epoch seconds \<^verbatim>\<open>datetime.utcfromtimestamp\<close> was given; outside
  the years 1 to 9999 that call raises (\<open>TimestampRangeError\<close>).
\<close>

definition row_of :: "item \<Rightarrow> string \<Rightarrow> exn + cell row" where
  "row_of it protocol_name =
     (case it of
        Str s \<Rightarrow> Inl AttributeError
      | Obj d \<Rightarrow>
         (case int_field d ''blockNumber'' of
            Inl e \<Rightarrow> Inl e
          | Inr block_number \<Rightarrow>
             (case int_field d ''timeStamp'' of
                Inl e \<Rightarrow> Inl e
              | Inr ts \<Rightarrow>
                 if ts < - 62135596800 \<or> 253402300799 < ts then Inl TimestampRangeError
                 else
                  (case (if dict_get d ''gasUsed'' ''0'' = [] then Inr 0
                         else py_int (dict_get d ''gasUsed'' ''0'')) of
                     Inl e \<Rightarrow> Inl e
                   | Inr gas_used \<Rightarrow>
                      Inr [''tx_hash'' \<mapsto> TextCell (dict_get d ''hash'' []),
                           ''block_number'' \<mapsto> IntCell block_number,
                           ''block_timestamp'' \<mapsto> TimeCell ts,
                           ''from_address'' \<mapsto> TextCell (lower (dict_get d ''from'' [])),
                           ''to_address'' \<mapsto> TextCell (lower (dict_get d ''to'' [])),
                           ''contract_address'' \<mapsto>
                             (if lower (dict_get d ''contractAddress'' []) = [] then NullCell
                              else TextCell (lower (dict_get d ''contractAddress'' []))),
                           ''value_wei'' \<mapsto> TextCell (or_zero (dict_get d ''value'' ''0'')),
                           ''gas_used'' \<mapsto> IntCell gas_used,
                           ''gas_price_wei'' \<mapsto> TextCell (or_zero (dict_get d ''gasPrice'' ''0'')),
                           ''method_id'' \<mapsto> TextCell (take 10 (dict_get d ''methodId'' [])),
                           ''function_name'' \<mapsto> TextCell
                             (if takeWhile (\<lambda>c. c \<noteq> CHR ''('') (dict_get d ''functionName'' []) \<noteq> []
                              then takeWhile (\<lambda>c. c \<noteq> CHR ''('') (dict_get d ''functionName'' [])
                              else (case METHOD_NAMES (take 10 (dict_get d ''methodId'' [])) of
                                      None \<Rightarrow> ''unknown'' | Some n \<Rightarrow> n)),
                           ''is_error'' \<mapsto> BoolCell (dict_get d ''isError'' ''0'' = ''1''),
                           ''protocol_name'' \<mapsto> TextCell protocol_name,
                           ''chain'' \<mapsto> TextCell ''ethereum'']))))"

fun rows_of :: "item list \<Rightarrow> string \<Rightarrow> exn + cell row list" where
  "rows_of [] protocol_name = Inr []"
| "rows_of (it # its) protocol_name =
     (case row_of it protocol_name of
        Inl e \<Rightarrow> Inl e
      | Inr r \<Rightarrow> (case rows_of its protocol_name of Inl e \<Rightarrow> Inl e | Inr rs \<Rightarrow> Inr (r # rs)))"

definition tx_columns :: "string list" where
  "tx_columns = [''tx_hash'', ''block_number'', ''block_timestamp'', ''from_address'',
     ''to_address'', ''contract_address'', ''value_wei'', ''gas_used'', ''gas_price_wei'',
     ''method_id'', ''function_name'', ''is_error'', ''protocol_name'', ''chain'']"

text \<open>\<^verbatim>\<open>pd.DataFrame(rows)\<close> for rows built by \<open>row_of\<close>, and \<^verbatim>\<open>pd.DataFrame()\<close>.\<close>

definition DataFrame :: "cell row list \<Rightarrow> cell dataframe" where
  "DataFrame rows = \<lparr>columns = (if rows = [] then [] else tx_columns), records = rows\<rparr>"

definition empty_frame :: "'v dataframe" where
  "empty_frame = \<lparr>columns = [], records = []\<rparr>"

subsection \<open>\<^verbatim>\<open>DataFrame.drop_duplicates(subset=...)\<close>\<close>

text \<open>
  pandas with its default \<^verbatim>\<open>keep="first"\<close>: going down the frame, a row is dropped when an
  earlier row has the same cells in the subset columns; the order of the rows kept is
  unchanged. A frame without rows is returned as it is; otherwise a subset column the frame
  does not have is a \<^verbatim>\<open>KeyError\<close>. (pandas also returns as it is a frame that has rows but
  no columns; no Source builds one, and here it is treated like any other frame with rows.)
\<close>

fun drop_duplicates :: "string list \<Rightarrow> 'v row list \<Rightarrow> 'v row list" where
  "drop_duplicates sub [] = []"
| "drop_duplicates sub (r # rs) =
     r # drop_duplicates sub (filter (\<lambda>x. key_of sub x \<noteq> key_of sub r) rs)"

definition df_drop_duplicates :: "string list \<Rightarrow> 'v dataframe \<Rightarrow> exn + 'v dataframe" where
  "df_drop_duplicates sub df =
     (if records df = [] then Inr df
      else (case filter (\<lambda>c. c \<notin> set (columns df)) sub of
              [] \<Rightarrow> Inr (df\<lparr>records := drop_duplicates sub (records df)\<rparr>)
            | c # cs \<Rightarrow> Inl (KeyError c)))"

definition parse_transactions :: "item list \<Rightarrow> string \<Rightarrow> exn + cell dataframe" where
  "parse_transactions raw_transactions protocol_name =
     (case rows_of raw_transactions protocol_name of
        Inl e \<Rightarrow> Inl e
      | Inr rows \<Rightarrow> df_drop_duplicates [''tx_hash''] (DataFrame rows))"

text \<open>
  The last two statements of \<^verbatim>\<open>DuneExtractor.extract\<close>, on the frame whose column names
  have been lower-cased: \<^verbatim>\<open>df.drop_duplicates(subset=["wallet_address"])\<close>.
\<close>

definition dune_deduplicate :: "'v dataframe \<Rightarrow> exn + 'v dataframe" where
  "dune_deduplicate df = df_drop_duplicates [''wallet_address''] df"

subsection \<open>Pagination: \<^verbatim>\<open>extract_transactions\<close>\<close>

text \<open>
  The parameters of one \<^verbatim>\<open>txlist\<close> request that vary (chain, module, action, sort order and
  API key are constants), and the JSON value \<^verbatim>\<open>_make_request\<close> returns: an object with its
  \<^verbatim>\<open>status\<close>, \<^verbatim>\<open>message\<close> and \<^verbatim>\<open>result\<close> entries, or something that is not an object.
  \<open>status\<close> is \<open>Some s\<close> for a JSON string \<open>s\<close> and \<open>None\<close> otherwise (only its equality with
  \<^verbatim>\<open>"1"\<close> is tested). The message is absent, a string, a scalar that is not a string (null, a
  number, a boolean), or a container (an array, with its string elements, or an object, with
  its keys).
\<close>

record request =
  address :: string
  startblock :: int
  endblock :: int
  page :: nat
  offset :: int

datatype result_field = ResultMissing | ResultText string | ResultList "item list"

datatype message_field =
  MessageMissing | MessageText string | MessageScalar | MessageContainer "string list"

record response =
  status :: "string option"
  message :: message_field
  result :: result_field

datatype data = Dict response | NotDict

text \<open>
  \<^verbatim>\<open>data.get("result", [])\<close> as the sequence Python sees: a string is the sequence of its
  one-character strings.
\<close>

definition items_of :: "result_field \<Rightarrow> item list" where
  "items_of rf = (case rf of ResultMissing \<Rightarrow> [] | ResultText s \<Rightarrow> map (\<lambda>c. Str [c]) s
                  | ResultList xs \<Rightarrow> xs)"

text \<open>
  \<^verbatim>\<open>"No transactions found" in message\<close>, with \<^verbatim>\<open>message = data.get("message", "")\<close>: a
  substring test on a string, a membership test on a container, and a \<^verbatim>\<open>TypeError\<close> on a
  scalar that is not a string.
\<close>

definition no_transactions_in :: "message_field \<Rightarrow> exn + bool" where
  "no_transactions_in m =
     (case m of
        MessageMissing \<Rightarrow> Inr (sublist ''No transactions found'' [])
      | MessageText s \<Rightarrow> Inr (sublist ''No transactions found'' s)
      | MessageScalar \<Rightarrow> Inl TypeError
      | MessageContainer xs \<Rightarrow> Inr (''No transactions found'' \<in> set xs))"

text \<open>\<^verbatim>\<open>int(results[-1]["blockNumber"])\<close>\<close>

definition last_block :: "item list \<Rightarrow> exn + int" where
  "last_block results =
     (case last results of
        Str s \<Rightarrow> Inl TypeError
      | Obj d \<Rightarrow> (case d ''blockNumber'' of None \<Rightarrow> Inl (KeyError ''blockNumber'')
                  | Some s \<Rightarrow> py_int s))"

text \<open>
  One pass through the body of \<^verbatim>\<open>while True\<close>, given what \<^verbatim>\<open>_make_request\<close> did:
  \<open>Stop\<close> is a \<^verbatim>\<open>break\<close> with the transactions gathered (\<open>Inr\<close>) or an exception leaving
  the method (\<open>Inl\<close>); \<open>Next\<close> goes round again with the new list and the next start block.
  An exception of \<^verbatim>\<open>_make_request\<close> is caught, logged and answered with \<^verbatim>\<open>break\<close>. Under
  a status other than \<^verbatim>\<open>"1"\<close> both branches end in \<^verbatim>\<open>break\<close>, once the test on the message
  has been evaluated. \<^verbatim>\<open>data.get\<close>, that test and the cursor advance stand outside the
  \<^verbatim>\<open>try\<close>, so what they raise leaves the method.
\<close>

datatype step = Stop "exn + item list" | Next "item list" int

definition page_step :: "exn + data \<Rightarrow> int \<Rightarrow> item list \<Rightarrow> step" where
  "page_step fetched page_size all_transactions =
     (case fetched of
        Inl e \<Rightarrow> Stop (Inr all_transactions)
      | Inr NotDict \<Rightarrow> Stop (Inl AttributeError)
      | Inr (Dict d) \<Rightarrow>
          if status d \<noteq> Some ''1'' then
            (case no_transactions_in (message d) of
               Inl e \<Rightarrow> Stop (Inl e)
             | Inr found \<Rightarrow>
                 if found \<or> items_of (result d) = [] then Stop (Inr all_transactions)
                 else Stop (Inr all_transactions))
          else if items_of (result d) = [] then Stop (Inr all_transactions)
          else if int (length (items_of (result d))) < page_size
          then Stop (Inr (all_transactions @ items_of (result d)))
          else (case last_block (items_of (result d)) of
                  Inl e \<Rightarrow> Stop (Inl e)
                | Inr b \<Rightarrow> Next (all_transactions @ items_of (result d)) (b + 1)))"

definition params :: "string \<Rightarrow> int \<Rightarrow> int \<Rightarrow> nat \<Rightarrow> int \<Rightarrow> request" where
  "params contract_address current_block end_block pg page_size =
     \<lparr>address = contract_address, startblock = current_block, endblock = end_block,
      page = pg, offset = page_size\<rparr>"

text \<open>
  The loop. \<open>fetch\<close> is what \<^verbatim>\<open>_make_request\<close> does for a request (after its retries); the
  requests issued are recorded in order. The loop need not end (an API that always answers
  with full pages), so the result is an option: \<open>None\<close> is a run that never returns.
\<close>

partial_function (option) paginate ::
  "(request \<Rightarrow> exn + data) \<Rightarrow> string \<Rightarrow> int \<Rightarrow> int \<Rightarrow> item list \<Rightarrow> int \<Rightarrow> nat \<Rightarrow> request list
   \<Rightarrow> ((exn + item list) \<times> request list) option" where
  "paginate fetch contract_address end_block page_size all_transactions current_block pg issued =
     (case page_step (fetch (params contract_address current_block end_block pg page_size))
             page_size all_transactions of
        Stop r \<Rightarrow> Some (r, issued @ [params contract_address current_block end_block pg page_size])
      | Next all' b \<Rightarrow>
          paginate fetch contract_address end_block page_size all' b (pg + 1)
            (issued @ [params contract_address current_block end_block pg page_size]))"

text \<open>After the loop: an empty frame when nothing was gathered, else the parsed frame.\<close>

definition finish :: "exn + item list \<Rightarrow> string \<Rightarrow> exn + cell dataframe" where
  "finish r protocol_name =
     (case r of
        Inl e \<Rightarrow> Inl e
      | Inr all_transactions \<Rightarrow>
          if all_transactions = [] then Inr empty_frame
          else parse_transactions all_transactions protocol_name)"

definition extract_transactions ::
  "(request \<Rightarrow> exn + data) \<Rightarrow> string \<Rightarrow> string \<Rightarrow> int \<Rightarrow> int \<Rightarrow> int
   \<Rightarrow> ((exn + cell dataframe) \<times> request list) option" where
  "extract_transactions fetch contract_address protocol_name start_block end_block page_size =
     (case paginate fetch contract_address end_block page_size [] start_block 1 [] of
        None \<Rightarrow> None
      | Some (r, issued) \<Rightarrow> Some (finish r protocol_name, issued))"


subsection \<open>\<^verbatim>\<open>EtherscanExtractor.extract\<close>\<close>





section \<open>The orchestrator (run\_extraction.py)\<close>

text \<open>
  An extractor as the orchestrator uses it: \<open>extract_df\<close> is what \<^verbatim>\<open>extract()\<close> does (it may read the
  database, as the enrichment sources do, and it may raise) and its \<^verbatim>\<open>target_table\<close>.
  \<^verbatim>\<open>validate\<close> is \<^verbatim>\<open>BaseExtractor\<close>'s, which no source overrides: it logs and returns
  the frame.
\<close>

record 'v extractor =
  extract_df :: "'v store \<Rightarrow> exn + 'v dataframe"
  target_table :: string

definition validate :: "'v dataframe \<Rightarrow> 'v dataframe" where
  "validate df = df"

text \<open>
  The loader object handed to \<^verbatim>\<open>_run_extractor\<close> is a \<^verbatim>\<open>PostgresLoader\<close> or \<^verbatim>\<open>None\<close>;
  calling a method on \<^verbatim>\<open>None\<close> raises \<^verbatim>\<open>AttributeError\<close>.
\<close>

datatype loader = PostgresLoader

text \<open>
  The process state: the database and the number of \<^verbatim>\<open>datetime.utcnow()\<close> readings made so
  far; \<open>clock n\<close> is the \<open>n\<close>-th reading.
\<close>

record 'v world =
  db :: "'v store"
  ticks :: nat

text \<open>
  The dictionary \<^verbatim>\<open>_run_extractor\<close> returns. The status strings are the source's without
  their leading emoji; \<open>summary_error\<close> holds the exception whose \<^verbatim>\<open>str()\<close> the code stores.
\<close>

record summary =
  summary_source :: string
  summary_status :: string
  summary_rows :: nat
  summary_error :: "exn option"

definition conflict_map :: "string \<rightharpoonup> string list" where
  "conflict_map = map_of
     [(''etherscan'', [''tx_hash'']),
      (''defillama'', [''protocol_slug'', ''chain'', ''date'']),
      (''dune'', [''wallet_address'']),
      (''coingecko'', [''token_id'', ''date'']),
      (''lifi'', [''wallet_address'']),
      (''portfolio'', [''wallet_address''])]"

text \<open>The \<^verbatim>\<open>try\<close> block of \<^verbatim>\<open>_run_extractor\<close>; \<open>Inl\<close> is an exception raised inside it.\<close>

definition try_block ::
  "(nat \<Rightarrow> datetime) \<Rightarrow> 'v extractor \<Rightarrow> loader option \<Rightarrow> string \<Rightarrow> datetime \<Rightarrow> 'v world
   \<Rightarrow> (exn + summary) \<times> 'v world" where
  "try_block clock extractor ld source_name started w =
     (case extract_df extractor (db w) of
        Inl e \<Rightarrow> (Inl e, w)
      | Inr df0 \<Rightarrow>
         (let df = validate df0 in
          if df_empty df then
            (case ld of
               None \<Rightarrow> (Inl AttributeError, w)
             | Some l \<Rightarrow>
                 (Inr \<lparr>summary_source = source_name, summary_status = ''empty'',
                       summary_rows = 0, summary_error = None\<rparr>,
                  w\<lparr>db := log_run source_name ''partial'' 0 0 started None (db w)\<rparr>))
          else
            (let conflict_cols = conflict_map source_name in
             case ld of
               None \<Rightarrow> (Inl AttributeError, w)
             | Some l \<Rightarrow>
                (case upsert df (target_table extractor) conflict_cols ''raw'' (clock (ticks w)) (db w) of
                   (Inl e, s') \<Rightarrow> (Inl e, w\<lparr>db := s', ticks := ticks w + 1\<rparr>)
                 | (Inr rows, s') \<Rightarrow>
                     (Inr \<lparr>summary_source = source_name, summary_status = ''success'',
                           summary_rows = rows, summary_error = None\<rparr>,
                      w\<lparr>db := log_run source_name ''success'' (len df) rows started None s',
                        ticks := ticks w + 1\<rparr>)))))"

text \<open>
  \<^verbatim>\<open>_run_extractor\<close>: the \<^verbatim>\<open>try\<close> block and its \<^verbatim>\<open>except Exception\<close> handler, which itself
  calls \<^verbatim>\<open>loader.log_run\<close>. \<open>Inl\<close> is an exception that leaves the function.
\<close>

definition run_extractor ::
  "(nat \<Rightarrow> datetime) \<Rightarrow> 'v extractor \<Rightarrow> loader option \<Rightarrow> string \<Rightarrow> 'v world
   \<Rightarrow> (exn + summary) \<times> 'v world" where
  "run_extractor clock extractor ld source_name w =
     (let started = clock (ticks w) in
      case try_block clock extractor ld source_name started (w\<lparr>ticks := ticks w + 1\<rparr>) of
        (Inr r, w') \<Rightarrow> (Inr r, w')
      | (Inl e, w') \<Rightarrow>
          (case ld of
             None \<Rightarrow> (Inl AttributeError, w')
           | Some l \<Rightarrow>
               (Inr \<lparr>summary_source = source_name, summary_status = ''failed'',
                     summary_rows = 0, summary_error = Some e\<rparr>,
                w'\<lparr>db := log_run source_name ''failed'' 0 0 started (Some e) (db w')\<rparr>)))"

text \<open>
  \<^verbatim>\<open>run\<close>: the registry in insertion order, the \<^verbatim>\<open>--source\<close> filter, the loop over the
  selected extractors, and the exit. \<^verbatim>\<open>typer.Exit(1)\<close> is exit code 1, a normal return exit
  code 0; \<open>Inl\<close> is an exception that escapes \<^verbatim>\<open>run\<close> and kills the process.
\<close>

definition source_names :: "string list" where
  "source_names = [''etherscan'', ''defillama'', ''dune'', ''coingecko'', ''lifi'', ''portfolio'']"

record report =
  results :: "summary list"
  exit_code :: nat

definition select_sources ::
  "(string \<Rightarrow> 'v extractor) \<Rightarrow> string option \<Rightarrow> (string \<times> 'v extractor) list option" where
  "select_sources extractors src =
     (case src of
        None \<Rightarrow> Some (map (\<lambda>n. (n, extractors n)) source_names)
      | Some s \<Rightarrow>
          if s \<noteq> [] \<and> s \<noteq> ''all'' then
            (if s \<notin> set source_names then None else Some [(s, extractors s)])
          else Some (map (\<lambda>n. (n, extractors n)) source_names))"

fun run_all ::
  "(nat \<Rightarrow> datetime) \<Rightarrow> loader option \<Rightarrow> (string \<times> 'v extractor) list \<Rightarrow> 'v world \<Rightarrow> summary list
   \<Rightarrow> (exn + summary list) \<times> 'v world" where
  "run_all clock ld [] w acc = (Inr acc, w)"
| "run_all clock ld ((name, extractor) # rest) w acc =
     (case run_extractor clock extractor ld name w of
        (Inl e, w') \<Rightarrow> (Inl e, w')
      | (Inr r, w') \<Rightarrow> run_all clock ld rest w' (acc @ [r]))"

definition run ::
  "(nat \<Rightarrow> datetime) \<Rightarrow> (string \<Rightarrow> 'v extractor) \<Rightarrow> string option \<Rightarrow> bool \<Rightarrow> 'v world
   \<Rightarrow> (exn + report) \<times> 'v world" where
  "run clock extractors src dry_run w =
     (case select_sources extractors src of
        None \<Rightarrow> (Inr \<lparr>results = [], exit_code = 1\<rparr>, w)
      | Some extractors_to_run \<Rightarrow>
          (case run_all clock (if \<not> dry_run then Some PostgresLoader else None)
                  extractors_to_run w [] of
             (Inl e, w') \<Rightarrow> (Inl e, w')
           | (Inr rs, w') \<Rightarrow>
               (Inr \<lparr>results = rs,
                     exit_code = (if filter (\<lambda>r. sublist ''failed'' (summary_status r)) rs \<noteq> []
                                  then 1 else 0)\<rparr>, w')))"

section \<open>Auxiliary notions used in the proofs\<close>

text \<open>
  A staged row is settled in a table when merging it again changes nothing: its key is
  present and every row with that key already carries its update.
\<close>

definition settled :: "string list \<Rightarrow> on_conflict \<Rightarrow> 'v row \<Rightarrow> 'v row list \<Rightarrow> bool" where
  "settled cc action r T \<longleftrightarrow>
     (\<exists>x \<in> set T. key_of cc x = key_of cc r) \<and>
     (case action of DoNothing \<Rightarrow> True
      | DoUpdate u \<Rightarrow> \<forall>x \<in> set T. key_of cc x = key_of cc r \<longrightarrow> x ++ (r |` set u) = x)"

definition action_ok :: "string list \<Rightarrow> on_conflict \<Rightarrow> bool" where
  "action_ok cc action = (case action of DoNothing \<Rightarrow> True | DoUpdate u \<Rightarrow> set u \<inter> set cc = {})"

definition apply_update :: "string list \<Rightarrow> string list \<Rightarrow> 'v row \<Rightarrow> 'v row \<Rightarrow> 'v row" where
  "apply_update cc u r x = (if key_of cc x = key_of cc r then x ++ (r |` set u) else x)"

definition merge_action :: "string list \<Rightarrow> string list \<Rightarrow> on_conflict" where
  "merge_action cc cols =
     (if filter (\<lambda>c. c \<notin> set cc) cols \<noteq> [] then DoUpdate (filter (\<lambda>c. c \<notin> set cc) cols) else DoNothing)"

section \<open>Staging-table names\<close>

lemma lt10_cases: "d < 10 \<Longrightarrow> d \<in> {0, 1, 2, 3, 4, 5, 6, 7, 8, (9::nat)}"
  by auto

lemma digit_val_digit_char: "d < 10 \<Longrightarrow> digit_val (digit_char d) = d"
  using lt10_cases [of d] by (auto simp: digit_val_def digit_char_def)

lemma digit_char_plain: "d < 10 \<Longrightarrow> digit_char d \<noteq> CHR ''_'' \<and> digit_char d \<noteq> CHR ''-''"
  using lt10_cases [of d] by (auto simp: digit_char_def)

lemma digits_val_snoc: "digits_val (s @ [c]) = 10 * digits_val s + digit_val c"
  by (simp add: digits_val_def)

lemma digits_val_str_nat: "digits_val (str_nat n) = n"
proof (induction n rule: str_nat.induct)
  case (1 n)
  show ?case
  proof (cases "n < 10")
    case True
    then show ?thesis
      by (subst str_nat.simps) (simp add: digits_val_def digit_val_digit_char)
  next
    case False
    with 1 have "digits_val (str_nat (n div 10)) = n div 10" by simp
    with False show ?thesis
      by (subst str_nat.simps) (simp add: digits_val_snoc digit_val_digit_char)
  qed
qed

lemma str_nat_inj: "str_nat n = str_nat m \<Longrightarrow> n = m"
  by (metis digits_val_str_nat)

lemma str_nat_chars: "c \<in> set (str_nat n) \<Longrightarrow> c \<noteq> CHR ''_'' \<and> c \<noteq> CHR ''-''"
proof (induction n rule: str_nat.induct)
  case (1 n)
  show ?case
  proof (cases "n < 10")
    case True
    with 1(2) show ?thesis
      by (subst (asm) str_nat.simps) (simp add: digit_char_plain)
  next
    case False
    from 1(2) False have "c \<in> set (str_nat (n div 10)) \<or> c = digit_char (n mod 10)"
      by (subst (asm) str_nat.simps) auto
    with 1(1) False show ?thesis
      by (auto simp: digit_char_plain)
  qed
qed

lemma str_nat_not_Nil: "str_nat n \<noteq> []"
  by (subst str_nat.simps) simp

lemma str_nat_hd: "hd (str_nat n) \<noteq> CHR ''-''"
  using str_nat_chars [of "hd (str_nat n)" n] str_nat_not_Nil [of n] by simp

lemma str_int_inj: "str_int i = str_int j \<Longrightarrow> i = j"
proof -
  assume eq: "str_int i = str_int j"
  consider "i < 0" "j < 0" | "i < 0" "\<not> j < 0" | "\<not> i < 0" "j < 0" | "\<not> i < 0" "\<not> j < 0"
    by blast
  then show ?thesis
  proof cases
    case 1
    with eq have "nat (- i) = nat (- j)" by (simp add: str_int_def str_nat_inj)
    with 1 show ?thesis by simp
  next
    case 2
    with eq have "CHR ''-'' # str_nat (nat (- i)) = str_nat (nat j)" by (simp add: str_int_def)
    then have "hd (str_nat (nat j)) = CHR ''-''" by (metis list.sel(1))
    then show ?thesis using str_nat_hd by blast
  next
    case 3
    with eq have "CHR ''-'' # str_nat (nat (- j)) = str_nat (nat i)" by (simp add: str_int_def)
    then have "hd (str_nat (nat i)) = CHR ''-''" by (metis list.sel(1))
    then show ?thesis using str_nat_hd by blast
  next
    case 4
    with eq have "nat i = nat j" by (simp add: str_int_def str_nat_inj)
    with 4 show ?thesis by simp
  qed
qed

lemma str_int_no_underscore: "CHR ''_'' \<notin> set (str_int i)"
  using str_nat_chars by (auto simp: str_int_def)

lemma suffix_split_unique:
  assumes "a @ [x] @ s = b @ [x] @ t" "x \<notin> set s" "x \<notin> set t"
  shows "a = b \<and> s = t"
proof -
  from assms(1) have "rev (a @ [x] @ s) = rev (b @ [x] @ t)" by simp
  then have "rev s @ [x] @ rev a = rev t @ [x] @ rev b" by simp
  then have "takeWhile (\<lambda>c. c \<noteq> x) (rev s @ x # rev a) = takeWhile (\<lambda>c. c \<noteq> x) (rev t @ x # rev b)"
    by simp
  moreover have "takeWhile (\<lambda>c. c \<noteq> x) (rev s @ x # rev a) = rev s"
    using assms(2) by (auto simp: takeWhile_tail)
  moreover have "takeWhile (\<lambda>c. c \<noteq> x) (rev t @ x # rev b) = rev t"
    using assms(3) by (auto simp: takeWhile_tail)
  ultimately have "s = t" by simp
  with assms(1) show ?thesis by simp
qed

text \<open>
  C9 (amended). The staging-table name is built from the table name and the integer
  \<^verbatim>\<open>int(datetime.utcnow().timestamp())\<close>, the call's timestamp truncated to a whole number.
  Two calls compute the same name exactly when they target the same table and their
  timestamps truncate to the same whole number; the names are distinct only across tables or
  across different truncated timestamps.
\<close>

theorem temp_table_name_eq_iff:
  "temp_table_name t1 n1 = temp_table_name t2 n2 \<longleftrightarrow>
   t1 = t2 \<and> int_of_float (timestamp n1) = int_of_float (timestamp n2)"
proof
  assume "temp_table_name t1 n1 = temp_table_name t2 n2"
  then have "t1 @ [CHR ''_''] @ str_int (int_of_float (timestamp n1))
             = t2 @ [CHR ''_''] @ str_int (int_of_float (timestamp n2))"
    by (simp add: temp_table_name_def)
  then have "t1 = t2 \<and> str_int (int_of_float (timestamp n1)) = str_int (int_of_float (timestamp n2))"
    by (rule suffix_split_unique) (rule str_int_no_underscore)+
  then show "t1 = t2 \<and> int_of_float (timestamp n1) = int_of_float (timestamp n2)"
    by (auto dest: str_int_inj)
next
  assume "t1 = t2 \<and> int_of_float (timestamp n1) = int_of_float (timestamp n2)"
  then show "temp_table_name t1 n1 = temp_table_name t2 n2"
    by (simp add: temp_table_name_def)
qed

text \<open>
  C9 (as stated, refuted). Two calls on the same table half a second apart within one
  second: the readings 22:13:20.25 and 22:13:20.75 of 14 November 2023, with the timestamps
  1700000000.25 and 1700000000.75 they have on a host whose local time is UTC. Both compute
  the same staging-table name.
\<close>

theorem temp_table_name_same_second:
  "micros \<lparr>micros = 1700000000250000, timestamp = \<lparr>mantissa = 6800000001, exponent = - 2\<rparr>\<rparr>
     \<noteq> micros \<lparr>micros = 1700000000750000, timestamp = \<lparr>mantissa = 6800000003, exponent = - 2\<rparr>\<rparr>
   \<and> temp_table_name ''etherscan_transactions''
        \<lparr>micros = 1700000000250000, timestamp = \<lparr>mantissa = 6800000001, exponent = - 2\<rparr>\<rparr>
     = temp_table_name ''etherscan_transactions''
        \<lparr>micros = 1700000000750000, timestamp = \<lparr>mantissa = 6800000003, exponent = - 2\<rparr>\<rparr>"
  by (simp add: temp_table_name_def int_of_float_def)

section \<open>The merge and its idempotence\<close>

lemma staging_neq_target: "schema @ ''.'' @ temp_table_name table now \<noteq> schema @ ''.'' @ table"
proof
  assume "schema @ ''.'' @ temp_table_name table now = schema @ ''.'' @ table"
  then have "length (temp_table_name table now) = length table" by simp
  then show False by (simp add: temp_table_name_def)
qed

lemma key_of_restrict: "set cc \<subseteq> C \<Longrightarrow> key_of cc (r |` C) = key_of cc r"
  by (auto simp: key_of_def restrict_map_def)

lemma settled_fix: "settled cc action r T \<Longrightarrow> upsert_row cc action r T = T"
proof (cases action)
  case (DoUpdate u)
  assume "settled cc action r T"
  with DoUpdate have ex: "\<exists>x \<in> set T. key_of cc x = key_of cc r"
    and fx: "\<forall>x \<in> set T. key_of cc x = key_of cc r \<longrightarrow> x ++ (r |` set u) = x"
    by (simp_all add: settled_def)
  from fx have "map (\<lambda>x. if key_of cc x = key_of cc r then x ++ (r |` set u) else x) T = T"
    by (intro map_idI) simp
  with ex DoUpdate show ?thesis by (simp add: upsert_row_def)
next
  case DoNothing
  assume "settled cc action r T"
  with DoNothing show ?thesis by (simp add: settled_def upsert_row_def)
qed

lemma map_add_restrict_self: "r ++ (r |` A) = r"
  by (rule ext) (simp add: map_add_def restrict_map_def split: option.splits)

lemma map_add_restrict_twice: "(x ++ (r |` A)) ++ (r |` A) = x ++ (r |` A)"
  by (rule ext) (simp add: map_add_def restrict_map_def split: option.splits)

lemma key_of_add: "set u \<inter> set cc = {} \<Longrightarrow> key_of cc (x ++ (r |` set u)) = key_of cc x"
  by (auto simp: key_of_def map_add_def restrict_map_def)

lemma upsert_row_hit:
  "\<exists>x \<in> set T. key_of cc x = key_of cc r \<Longrightarrow>
   upsert_row cc (DoUpdate u) r T = map (apply_update cc u r) T"
  unfolding upsert_row_def apply_update_def by simp

lemma upsert_row_miss:
  "\<not> (\<exists>x \<in> set T. key_of cc x = key_of cc r) \<Longrightarrow> upsert_row cc action r T = T @ [r]"
  unfolding upsert_row_def by simp

lemma key_apply_update:
  "set u \<inter> set cc = {} \<Longrightarrow> key_of cc (apply_update cc u r x) = key_of cc x"
  unfolding apply_update_def by (simp add: key_of_add)

lemma apply_update_same:
  "key_of cc x = key_of cc r \<Longrightarrow> apply_update cc u r x ++ (r |` set u) = apply_update cc u r x"
  unfolding apply_update_def by (simp add: map_add_restrict_twice)

lemma apply_update_other:
  "key_of cc x \<noteq> key_of cc r \<Longrightarrow> apply_update cc u r x = x"
  unfolding apply_update_def by simp

lemma settled_after_nothing: "settled cc DoNothing r (upsert_row cc DoNothing r T)"
  unfolding settled_def upsert_row_def by simp

lemma settled_after_update:
  assumes "set u \<inter> set cc = {}"
  shows "settled cc (DoUpdate u) r (upsert_row cc (DoUpdate u) r T)"
proof (cases "\<exists>x \<in> set T. key_of cc x = key_of cc r")
  case True
  then obtain y where y: "y \<in> set T" "key_of cc y = key_of cc r" by blast
  have T': "upsert_row cc (DoUpdate u) r T = map (apply_update cc u r) T"
    using True by (rule upsert_row_hit)
  have "apply_update cc u r y \<in> set (map (apply_update cc u r) T)"
    using y(1) by (metis image_eqI set_map)
  moreover have "key_of cc (apply_update cc u r y) = key_of cc r"
    using assms y(2) by (metis key_apply_update)
  ultimately have ex: "\<exists>x \<in> set (map (apply_update cc u r) T). key_of cc x = key_of cc r"
    by blast
  have fx: "x ++ (r |` set u) = x"
    if "x \<in> set (map (apply_update cc u r) T)" "key_of cc x = key_of cc r" for x
  proof -
    from that(1) obtain z where z: "z \<in> set T" "x = apply_update cc u r z"
      by (metis imageE set_map)
    from that(2) z(2) assms have "key_of cc z = key_of cc r"
      by (metis key_apply_update)
    then show ?thesis unfolding z(2) by (rule apply_update_same)
  qed
  show ?thesis unfolding T' settled_def on_conflict.case using ex fx by blast
next
  case False
  then have T': "upsert_row cc (DoUpdate u) r T = T @ [r]" by (rule upsert_row_miss)
  have "\<exists>x \<in> set (T @ [r]). key_of cc x = key_of cc r" by simp
  moreover have "\<forall>x \<in> set (T @ [r]). key_of cc x = key_of cc r \<longrightarrow> x ++ (r |` set u) = x"
    using False by (auto simp: map_add_restrict_self)
  ultimately show ?thesis unfolding T' settled_def on_conflict.case by blast
qed

lemma settled_after: "action_ok cc action \<Longrightarrow> settled cc action r (upsert_row cc action r T)"
  by (cases action) (simp_all add: action_ok_def settled_after_nothing settled_after_update)

lemma settled_other_nothing:
  "settled cc DoNothing r T \<Longrightarrow> settled cc DoNothing r (upsert_row cc DoNothing r' T)"
  unfolding settled_def upsert_row_def by auto

lemma settled_other_update:
  assumes "set u \<inter> set cc = {}" "key_of cc r' \<noteq> key_of cc r" "settled cc (DoUpdate u) r T"
  shows "settled cc (DoUpdate u) r (upsert_row cc (DoUpdate u) r' T)"
proof -
  from assms(3) have ex0: "\<exists>x \<in> set T. key_of cc x = key_of cc r"
    and fx0: "\<forall>x \<in> set T. key_of cc x = key_of cc r \<longrightarrow> x ++ (r |` set u) = x"
    unfolding settled_def by simp_all
  show ?thesis
  proof (cases "\<exists>x \<in> set T. key_of cc x = key_of cc r'")
    case True
    have T': "upsert_row cc (DoUpdate u) r' T = map (apply_update cc u r') T"
      using True by (rule upsert_row_hit)
    from ex0 obtain y where y: "y \<in> set T" "key_of cc y = key_of cc r" by blast
    then have "apply_update cc u r' y = y" using assms(2) by (metis apply_update_other)
    then have "y \<in> set (map (apply_update cc u r') T)" using y(1) by (metis image_eqI set_map)
    then have ex: "\<exists>x \<in> set (map (apply_update cc u r') T). key_of cc x = key_of cc r"
      using y(2) by blast
    have fx: "x ++ (r |` set u) = x"
      if "x \<in> set (map (apply_update cc u r') T)" "key_of cc x = key_of cc r" for x
    proof -
      from that(1) obtain z where z: "z \<in> set T" "x = apply_update cc u r' z"
        by (metis imageE set_map)
      from that(2) z(2) assms(1) have kz: "key_of cc z = key_of cc r"
        by (metis key_apply_update)
      then have "x = z" using z(2) assms(2) by (metis apply_update_other)
      with z(1) kz fx0 show ?thesis by blast
    qed
    show ?thesis unfolding T' settled_def on_conflict.case using ex fx by blast
  next
    case False
    then have T': "upsert_row cc (DoUpdate u) r' T = T @ [r']" by (rule upsert_row_miss)
    have "\<exists>x \<in> set (T @ [r']). key_of cc x = key_of cc r" using ex0 by auto
    moreover have "\<forall>x \<in> set (T @ [r']). key_of cc x = key_of cc r \<longrightarrow> x ++ (r |` set u) = x"
      using fx0 assms(2) by auto
    ultimately show ?thesis unfolding T' settled_def on_conflict.case by blast
  qed
qed

lemma settled_other:
  "action_ok cc action \<Longrightarrow> key_of cc r' \<noteq> key_of cc r \<Longrightarrow> settled cc action r T \<Longrightarrow>
   settled cc action r (upsert_row cc action r' T)"
  by (cases action) (simp_all add: action_ok_def settled_other_nothing settled_other_update)

lemma settled_fold_other:
  "action_ok cc action \<Longrightarrow> key_of cc r \<notin> set (map (key_of cc) rs) \<Longrightarrow> settled cc action r T \<Longrightarrow>
   settled cc action r (fold (upsert_row cc action) rs T)"
proof (induction rs arbitrary: T)
  case Nil
  then show ?case by simp
next
  case (Cons a rs)
  from Cons.prems have "key_of cc a \<noteq> key_of cc r" by auto
  with Cons.prems have "settled cc action r (upsert_row cc action a T)"
    by (simp add: settled_other)
  moreover from Cons.prems have "key_of cc r \<notin> set (map (key_of cc) rs)" by simp
  ultimately show ?case using Cons.IH Cons.prems(1) by simp
qed

lemma settled_fold_all:
  "action_ok cc action \<Longrightarrow> distinct (map (key_of cc) rs) \<Longrightarrow> r \<in> set rs \<Longrightarrow>
   settled cc action r (fold (upsert_row cc action) rs T)"
proof (induction rs arbitrary: T)
  case Nil
  then show ?case by simp
next
  case (Cons a rs)
  show ?case
  proof (cases "r = a")
    case True
    from Cons.prems(2) have "key_of cc a \<notin> set (map (key_of cc) rs)" by simp
    with Cons.prems(1) True show ?thesis
      by (simp add: settled_fold_other settled_after)
  next
    case False
    with Cons.prems have "r \<in> set rs" "distinct (map (key_of cc) rs)" by simp_all
    with Cons.IH Cons.prems(1) show ?thesis by simp
  qed
qed

lemma fold_settled_fix:
  "\<forall>r \<in> set rs. settled cc action r T \<Longrightarrow> fold (upsert_row cc action) rs T = T"
  by (induction rs) (simp_all add: settled_fix)

lemma merge_idempotent:
  assumes "action_ok cc action" "distinct (map (key_of cc) rs)"
  shows "fold (upsert_row cc action) rs (fold (upsert_row cc action) rs T)
         = fold (upsert_row cc action) rs T"
proof (rule fold_settled_fix, rule ballI)
  fix r assume "r \<in> set rs"
  with assms show "settled cc action r (fold (upsert_row cc action) rs T)"
    by (rule settled_fold_all)
qed

lemma temp_table_name_neq:
  "temp_table_name table now \<noteq> table" "table \<noteq> temp_table_name table now"
proof -
  have "length (temp_table_name table now) \<noteq> length table"
    by (simp add: temp_table_name_def)
  then show "temp_table_name table now \<noteq> table" "table \<noteq> temp_table_name table now"
    by auto
qed

lemma restrict_restrict_same: "(r |` A) |` A = r |` A"
  by simp

lemma upsert_empty: "df_empty df \<Longrightarrow> upsert df table cc schema now s = (Inr 0, s)"
  by (simp add: upsert_def)

lemma upsert_no_key:
  assumes "\<not> df_empty df" "cc = None \<or> cc = Some []"
  shows "upsert df table cc schema now s =
         (Inr (len df), s\<lparr>tables := (tables s)(schema @ ''.'' @ temp_table_name table now := None)\<rparr>)"
  using assms by (auto simp: upsert_def transaction_def upsert_statements_def Let_def)

lemma upsert_missing_target:
  assumes "\<not> df_empty df" "cc \<noteq> []" "tables s (schema @ ''.'' @ table) = None"
  shows "upsert df table (Some cc) schema now s = (Inl (ProgrammingError ''UndefinedTable''), s)"
  using assms staging_neq_target [of schema table now]
  by (simp add: upsert_def transaction_def upsert_statements_def Let_def)

lemma action_ok_merge_action: "action_ok cc (merge_action cc cols)"
  by (auto simp: action_ok_def merge_action_def)

lemma upsert_merge:
  assumes "\<not> df_empty df" "cc \<noteq> []" "tables s (schema @ ''.'' @ table) = Some T"
    and "distinct (map (key_of cc) (map (\<lambda>r. r |` set (columns df)) (records df)))"
  shows "upsert df table (Some cc) schema now s =
         (Inr (len df),
          s\<lparr>tables := (tables s)
              (schema @ ''.'' @ table \<mapsto>
                 fold (upsert_row cc (merge_action cc (columns df)))
                   (map (\<lambda>r. r |` set (columns df)) (records df)) T,
               schema @ ''.'' @ temp_table_name table now := None)\<rparr>)"
proof -
  let ?stg = "schema @ ''.'' @ temp_table_name table now"
  let ?full = "schema @ ''.'' @ table"
  let ?staged = "map (\<lambda>r. r |` set (columns df)) (records df)"
  let ?s1 = "s\<lparr>tables := (tables s)(?stg \<mapsto> ?staged)\<rparr>"
  have neq: "?stg \<noteq> ?full" by (rule staging_neq_target)
  have again: "map (\<lambda>r. r |` set (columns df)) ?staged = ?staged" by simp
  have e1: "exec (ToSqlReplace ?stg (columns df) (records df)) s = Inr ?s1" by simp
  have e2: "exec (InsertSelect ?full (columns df) ?stg cc (merge_action cc (columns df))) ?s1
            = Inr (?s1\<lparr>tables := (tables ?s1)(?full \<mapsto>
                 fold (upsert_row cc (merge_action cc (columns df))) ?staged T)\<rparr>)"
    using neq assms(3,4) again by (simp add: Let_def del: map_map)
  have stmts: "upsert_statements df table (Some cc) schema now =
     [ToSqlReplace ?stg (columns df) (records df),
      InsertSelect ?full (columns df) ?stg cc (merge_action cc (columns df)),
      DropTableIfExists ?stg]"
    using assms(2) by (simp add: upsert_statements_def Let_def merge_action_def)
  let ?s2 = "?s1\<lparr>tables := (tables ?s1)(?full \<mapsto>
                 fold (upsert_row cc (merge_action cc (columns df))) ?staged T)\<rparr>"
  have e3: "exec (DropTableIfExists ?stg) ?s2 =
        Inr (s\<lparr>tables := (tables s)
              (?full \<mapsto> fold (upsert_row cc (merge_action cc (columns df))) ?staged T,
               ?stg := None)\<rparr>)"
    using neq by (simp add: fun_upd_twist)
  have "exec_all (upsert_statements df table (Some cc) schema now) s =
        Inr (s\<lparr>tables := (tables s)
              (?full \<mapsto> fold (upsert_row cc (merge_action cc (columns df))) ?staged T,
               ?stg := None)\<rparr>)"
    unfolding stmts by (simp only: exec_all.simps e1 e2 e3 sum.case)
  then show ?thesis using assms(1) by (simp add: upsert_def transaction_def)
qed

text \<open>
  C1. For a batch whose conflict-key columns are among its columns and whose rows have
  pairwise different keys, a second \<open>upsert\<close> of the same batch into the same table (at any
  later clock reading) leaves the target table exactly as the first one left it.
\<close>

theorem upsert_idempotent:
  assumes "set cc \<subseteq> set (columns df)" "distinct (map (key_of cc) (records df))"
  shows "tables (snd (upsert df table (Some cc) schema t2
                        (snd (upsert df table (Some cc) schema t1 s)))) (schema @ ''.'' @ table)
         = tables (snd (upsert df table (Some cc) schema t1 s)) (schema @ ''.'' @ table)"
proof -
  let ?full = "schema @ ''.'' @ table"
  let ?staged = "map (\<lambda>r. r |` set (columns df)) (records df)"
  let ?act = "merge_action cc (columns df)"
  have dist: "distinct (map (key_of cc) ?staged)"
    using assms(2) by (simp add: comp_def key_of_restrict [OF assms(1)])
  show ?thesis
  proof (cases "df_empty df")
    case True
    then show ?thesis by (simp add: upsert_empty)
  next
    case ne1: False
    show ?thesis
    proof (cases "cc = []")
      case True
      with ne1 have "\<And>now s. upsert df table (Some cc) schema now s =
         (Inr (len df), s\<lparr>tables := (tables s)(schema @ ''.'' @ temp_table_name table now := None)\<rparr>)"
        by (simp add: upsert_no_key)
      then show ?thesis by (simp add: temp_table_name_neq)
    next
    case False
    with ne1 have ne: "\<not> df_empty df" "cc \<noteq> []" by simp_all
    show ?thesis
    proof (cases "tables s ?full")
      case None
      with ne show ?thesis by (simp add: upsert_missing_target)
    next
      case (Some T)
      let ?T1 = "fold (upsert_row cc ?act) ?staged T"
      let ?s1 = "snd (upsert df table (Some cc) schema t1 s)"
      have first: "tables ?s1 ?full = Some ?T1"
        using upsert_merge [OF ne Some dist, of t1] staging_neq_target [of schema table t1]
        by simp
      have "tables (snd (upsert df table (Some cc) schema t2 ?s1)) ?full
            = Some (fold (upsert_row cc ?act) ?staged ?T1)"
        using upsert_merge [OF ne first dist, of t2] staging_neq_target [of schema table t2]
        by simp
      also have "\<dots> = Some ?T1"
        using merge_idempotent [OF action_ok_merge_action dist] by simp
      finally show ?thesis using first by simp
    qed
    qed
  qed
qed

text \<open>
  C10. For a non-empty frame, \<open>upsert\<close> with no conflict columns issues only the staging
  write and the drop of the staging table, no insert into the target: the target table is
  unchanged, and the call still returns the (positive) row count of the frame.
\<close>

theorem upsert_without_conflict_columns:
  assumes "\<not> df_empty df"
  shows "upsert_statements df table None schema now =
           [ToSqlReplace (schema @ ''.'' @ temp_table_name table now) (columns df) (records df),
            DropTableIfExists (schema @ ''.'' @ temp_table_name table now)]
       \<and> upsert df table None schema now s =
           (Inr (len df), s\<lparr>tables := (tables s)(schema @ ''.'' @ temp_table_name table now := None)\<rparr>)
       \<and> tables (snd (upsert df table None schema now s)) (schema @ ''.'' @ table)
           = tables s (schema @ ''.'' @ table)
       \<and> 0 < len df"
  using assms staging_neq_target [of schema table now]
  by (auto simp: upsert_no_key upsert_statements_def Let_def df_empty_def len_def)

theorem upsert_idempotent_witness:
  "set [''tx_hash''] \<subseteq> set (columns \<lparr>columns = [''tx_hash'', ''value_wei''],
        records = [[''tx_hash'' \<mapsto> ''0xa'', ''value_wei'' \<mapsto> ''1''],
                   [''tx_hash'' \<mapsto> ''0xb'', ''value_wei'' \<mapsto> ''2'']]\<rparr>)
   \<and> distinct (map (key_of [''tx_hash'']) (records \<lparr>columns = [''tx_hash'', ''value_wei''],
        records = [[''tx_hash'' \<mapsto> ''0xa'', ''value_wei'' \<mapsto> ''1''],
                   [''tx_hash'' \<mapsto> ''0xb'', ''value_wei'' \<mapsto> ''2'']]\<rparr>))
   \<and> tables (snd (upsert \<lparr>columns = [''tx_hash'', ''value_wei''],
        records = [[''tx_hash'' \<mapsto> ''0xa'', ''value_wei'' \<mapsto> ''1''],
                   [''tx_hash'' \<mapsto> ''0xb'', ''value_wei'' \<mapsto> ''2'']]\<rparr>
          ''etherscan_transactions'' (Some [''tx_hash'']) ''raw''
          \<lparr>micros = 1700000005000000, timestamp = \<lparr>mantissa = 1700000005, exponent = 0\<rparr>\<rparr>
          (snd (upsert \<lparr>columns = [''tx_hash'', ''value_wei''],
        records = [[''tx_hash'' \<mapsto> ''0xa'', ''value_wei'' \<mapsto> ''1''],
                   [''tx_hash'' \<mapsto> ''0xb'', ''value_wei'' \<mapsto> ''2'']]\<rparr>
          ''etherscan_transactions'' (Some [''tx_hash'']) ''raw''
          \<lparr>micros = 1700000000000000, timestamp = \<lparr>mantissa = 1700000000, exponent = 0\<rparr>\<rparr>
            \<lparr>tables = [''raw.etherscan_transactions'' \<mapsto> [[''tx_hash'' \<mapsto> ''0xa'', ''value_wei'' \<mapsto> ''0'']]],
             pipeline_runs = Some []\<rparr>))))
        (''raw'' @ ''.'' @ ''etherscan_transactions'')
     = tables (snd (upsert \<lparr>columns = [''tx_hash'', ''value_wei''],
        records = [[''tx_hash'' \<mapsto> ''0xa'', ''value_wei'' \<mapsto> ''1''],
                   [''tx_hash'' \<mapsto> ''0xb'', ''value_wei'' \<mapsto> ''2'']]\<rparr>
          ''etherscan_transactions'' (Some [''tx_hash'']) ''raw''
          \<lparr>micros = 1700000000000000, timestamp = \<lparr>mantissa = 1700000000, exponent = 0\<rparr>\<rparr>
            \<lparr>tables = [''raw.etherscan_transactions'' \<mapsto> [[''tx_hash'' \<mapsto> ''0xa'', ''value_wei'' \<mapsto> ''0'']]],
             pipeline_runs = Some []\<rparr>))
        (''raw'' @ ''.'' @ ''etherscan_transactions'')"
proof -
  let ?df = "\<lparr>columns = [''tx_hash'', ''value_wei''],
        records = [[''tx_hash'' \<mapsto> ''0xa'', ''value_wei'' \<mapsto> ''1''],
                   [''tx_hash'' \<mapsto> ''0xb'', ''value_wei'' \<mapsto> ''2'']]\<rparr>"
  have h1: "set [''tx_hash''] \<subseteq> set (columns ?df)" by simp
  have h2: "distinct (map (key_of [''tx_hash'']) (records ?df))" by (simp add: key_of_def)
  note upsert_idempotent [OF h1 h2]
  with h1 h2 show ?thesis by blast
qed

theorem upsert_without_conflict_columns_witness:
  "\<not> df_empty \<lparr>columns = [''wallet_address'', ''label''],
        records = [[''wallet_address'' \<mapsto> ''0xabc'', ''label'' \<mapsto> ''whale'']]\<rparr>
   \<and> upsert \<lparr>columns = [''wallet_address'', ''label''],
        records = [[''wallet_address'' \<mapsto> ''0xabc'', ''label'' \<mapsto> ''whale'']]\<rparr>
        ''new_labels'' None ''raw''
          \<lparr>micros = 1700000000000000, timestamp = \<lparr>mantissa = 1700000000, exponent = 0\<rparr>\<rparr> \<lparr>tables = Map.empty, pipeline_runs = Some []\<rparr>
     = (Inr 1, \<lparr>tables = Map.empty, pipeline_runs = Some []\<rparr>)"
proof -
  let ?df = "\<lparr>columns = [''wallet_address'', ''label''],
        records = [[''wallet_address'' \<mapsto> ''0xabc'', ''label'' \<mapsto> ''whale'']]\<rparr>"
  have h: "\<not> df_empty ?df" by (simp add: df_empty_def)
  from upsert_without_conflict_columns [OF h, of "''new_labels''" "''raw''"
      "\<lparr>micros = 1700000000000000, timestamp = \<lparr>mantissa = 1700000000, exponent = 0\<rparr>\<rparr>"
      "\<lparr>tables = Map.empty, pipeline_runs = Some []\<rparr>"]
  show ?thesis using h by (simp add: len_def)
qed

text \<open>
  The specification's scenario in small: a key already in the table has its value
  overwritten, a new key is appended.
\<close>

lemma upsert_scenario:
  "map (\<lambda>r. (r ''tx_hash'', r ''value_wei''))
     (the (tables (snd (upsert \<lparr>columns = [''tx_hash'', ''value_wei''],
        records = [[''tx_hash'' \<mapsto> ''0xa'', ''value_wei'' \<mapsto> ''1''],
                   [''tx_hash'' \<mapsto> ''0xb'', ''value_wei'' \<mapsto> ''2'']]\<rparr>
          ''tx'' (Some [''tx_hash'']) ''raw''
          \<lparr>micros = 1700000000000000, timestamp = \<lparr>mantissa = 1700000000, exponent = 0\<rparr>\<rparr>
            \<lparr>tables = [''raw.tx'' \<mapsto> [[''tx_hash'' \<mapsto> ''0xa'', ''value_wei'' \<mapsto> ''0'']]],
             pipeline_runs = Some []\<rparr>)) ''raw.tx''))
   = [(Some ''0xa'', Some ''1''), (Some ''0xb'', Some ''2'')]"
  by (simp add: upsert_def df_empty_def transaction_def upsert_statements_def Let_def
        temp_table_name_def int_of_float_def key_of_def upsert_row_def len_def)

section \<open>Retries\<close>

lemma retry_loop_stop:
  "\<not> retried max_retries net n \<Longrightarrow>
   retry_loop max_retries net n sl = \<lparr>outcome = request_once (net n), attempts = n, waits = sl\<rparr>"
  by (subst retry_loop.simps) (auto simp: retried_def split: sum.splits)

lemma retry_loop_step:
  "retried max_retries net n \<Longrightarrow>
   retry_loop max_retries net n sl = retry_loop max_retries net (Suc n) (sl @ [wait_exponential n])"
  by (subst retry_loop.simps) (auto simp: retried_def split: sum.splits)

lemma retry_loop_run:
  assumes "\<forall>i. n \<le> i \<and> i < n + d \<longrightarrow> retried max_retries net i"
    and "\<not> retried max_retries net (n + d)"
  shows "retry_loop max_retries net n sl =
         \<lparr>outcome = request_once (net (n + d)), attempts = n + d,
          waits = sl @ map wait_exponential [n..<n + d]\<rparr>"
  using assms
proof (induction d arbitrary: n sl)
  case 0
  then show ?case by (simp add: retry_loop_stop)
next
  case (Suc d)
  from Suc.prems(1) have now: "retried max_retries net n" by simp
  have "retry_loop max_retries net (Suc n) (sl @ [wait_exponential n]) =
        \<lparr>outcome = request_once (net (Suc n + d)), attempts = Suc n + d,
         waits = (sl @ [wait_exponential n]) @ map wait_exponential [Suc n..<Suc n + d]\<rparr>"
    using Suc.prems by (intro Suc.IH) auto
  moreover have "[n..<n + Suc d] = n # [Suc n..<Suc n + d]"
    using upt_conv_Cons [of n "n + Suc d"] by simp
  ultimately show ?case
    using now by (simp only: retry_loop_step) simp
qed

text \<open>
  C2 (amended). Only connection failures and timeouts are retried. If attempts \<open>1\<close> to
  \<open>k - 1\<close> each failed with one of these below the attempt cap, and attempt \<open>k\<close> succeeds,
  fails with anything else (any HTTP error status, 5xx and 429 included, or a malformed body),
  or is the last attempt allowed, then exactly \<open>k\<close> attempts are made, the result is that of
  attempt \<open>k\<close> (a last timeout or connection failure re-raised as it is), and the waits in
  between are tenacity's exponential ones.
\<close>

theorem make_request_attempts:
  assumes "1 \<le> k"
    and "\<forall>i. 1 \<le> i \<and> i < k \<longrightarrow> retried max_retries net i"
    and "\<not> retried max_retries net k"
  shows "make_request max_retries net =
         \<lparr>outcome = request_once (net k), attempts = k, waits = map wait_exponential [1..<k]\<rparr>"
proof -
  from assms(1) obtain d where k: "k = 1 + d" by (metis le_iff_add)
  show ?thesis
    unfolding make_request_def k
    using assms(2,3) unfolding k by (subst retry_loop_run [where d = d]) auto
qed

lemma http_error_not_retried:
  "400 \<le> code \<Longrightarrow> code < 600 \<Longrightarrow>
   make_request max_retries (\<lambda>n. if n = 1 then Response code body else net n) =
     \<lparr>outcome = Inl (HTTPError code), attempts = 1, waits = []\<rparr>"
  unfolding make_request_def
  by (subst retry_loop_stop) (auto simp: retried_def request_once_def)

text \<open>
  C2 (as stated, refuted). HTTP 503 and HTTP 429 are transient in the specification's
  classification, yet with three attempts allowed the call gives up after the first.
\<close>

theorem make_request_5xx_counterexample:
  "spec_transient (HTTPError 503) \<and> spec_transient (HTTPError 429) \<and>
   make_request 3 (\<lambda>n. Response 503 (None :: string option)) =
     \<lparr>outcome = Inl (HTTPError 503), attempts = 1, waits = []\<rparr> \<and>
   make_request 3 (\<lambda>n. Response 429 (None :: string option)) =
     \<lparr>outcome = Inl (HTTPError 429), attempts = 1, waits = []\<rparr>"
  by (simp add: spec_transient_def make_request_def retry_loop.simps request_once_def)

theorem make_request_attempts_witness:
  "retried 3 (\<lambda>n. TimedOut :: string reply) 1 \<and> retried 3 (\<lambda>n. TimedOut :: string reply) 2
   \<and> \<not> retried 3 (\<lambda>n. TimedOut :: string reply) 3
   \<and> make_request 3 (\<lambda>n. TimedOut :: string reply) =
        \<lparr>outcome = Inl Timeout, attempts = 3, waits = [2, 2]\<rparr>"
proof -
  have r: "retried 3 (\<lambda>n. TimedOut :: string reply) i" if "i < 3" for i
    using that by (simp add: retried_def request_once_def)
  have h1: "(1::nat) \<le> 3" by simp
  have h2: "\<forall>i. 1 \<le> i \<and> i < 3 \<longrightarrow> retried 3 (\<lambda>n. TimedOut :: string reply) i"
    using r by simp
  have h3: "\<not> retried 3 (\<lambda>n. TimedOut :: string reply) 3"
    by (simp add: retried_def)
  have w: "map wait_exponential [1..<3] = [2, 2]"
    by (simp add: wait_exponential_def upt_conv_Cons)
  from make_request_attempts [OF h1 h2 h3] w r [of 1] r [of 2] h3 show ?thesis
    by (simp add: request_once_def)
qed

section \<open>De-duplication in the Sources\<close>

lemmas py_int_eval = py_int_def strip_def is_space_def digits_ok_def is_digit_def
  digits_val_def digit_val_def sublist_code

lemma set_drop_duplicates: "set (drop_duplicates sub rs) \<subseteq> set rs"
  by (induction sub rs rule: drop_duplicates.induct) auto

lemma keys_drop_duplicates:
  "key_of sub ` set (drop_duplicates sub rs) = key_of sub ` set rs"
proof (induction sub rs rule: drop_duplicates.induct)
  case (1 sub)
  then show ?case by simp
next
  case (2 sub r rs)
  have "key_of sub ` set (r # rs) =
        insert (key_of sub r) (key_of sub ` set (filter (\<lambda>x. key_of sub x \<noteq> key_of sub r) rs))"
    by auto
  with 2 show ?case by simp
qed

lemma distinct_drop_duplicates: "distinct (map (key_of sub) (drop_duplicates sub rs))"
proof (induction sub rs rule: drop_duplicates.induct)
  case (1 sub)
  then show ?case by simp
next
  case (2 sub r rs)
  have "key_of sub r \<notin> key_of sub ` set (filter (\<lambda>x. key_of sub x \<noteq> key_of sub r) rs)"
    by auto
  then have "key_of sub r \<notin>
      key_of sub ` set (drop_duplicates sub (filter (\<lambda>x. key_of sub x \<noteq> key_of sub r) rs))"
    unfolding keys_drop_duplicates .
  with 2 show ?case by simp
qed

lemma find_filter_implied:
  "(\<And>x. Q x \<Longrightarrow> P x) \<Longrightarrow> find Q (filter P rs) = find Q rs"
  by (induction rs) auto

lemma first_drop_duplicates:
  "r' \<in> set (drop_duplicates sub rs) \<Longrightarrow>
   find (\<lambda>x. key_of sub x = key_of sub r') rs = Some r'"
proof (induction sub rs rule: drop_duplicates.induct)
  case (1 sub)
  then show ?case by simp
next
  case (2 sub r rs)
  show ?case
  proof (cases "key_of sub r = key_of sub r'")
    case True
    have "r' \<notin> set (drop_duplicates sub (filter (\<lambda>x. key_of sub x \<noteq> key_of sub r) rs))"
      using set_drop_duplicates [of sub "filter (\<lambda>x. key_of sub x \<noteq> key_of sub r) rs"] True
      by auto
    with "2.prems" have "r' = r" by simp
    with True show ?thesis by simp
  next
    case False
    with "2.prems" have "r' \<in> set (drop_duplicates sub (filter (\<lambda>x. key_of sub x \<noteq> key_of sub r) rs))"
      by auto
    then have "find (\<lambda>x. key_of sub x = key_of sub r')
                 (filter (\<lambda>x. key_of sub x \<noteq> key_of sub r) rs) = Some r'"
      by (rule "2.IH")
    moreover have "find (\<lambda>x. key_of sub x = key_of sub r')
                 (filter (\<lambda>x. key_of sub x \<noteq> key_of sub r) rs)
               = find (\<lambda>x. key_of sub x = key_of sub r') rs"
      using False by (intro find_filter_implied) auto
    ultimately show ?thesis using False by simp
  qed
qed

lemma subseq_drop_duplicates: "subseq (drop_duplicates sub rs) rs"
proof (induction sub rs rule: drop_duplicates.induct)
  case (1 sub)
  then show ?case by simp
next
  case (2 sub r rs)
  have "subseq (filter (\<lambda>x. key_of sub x \<noteq> key_of sub r) rs) rs" by simp
  with 2 have "subseq (drop_duplicates sub (filter (\<lambda>x. key_of sub x \<noteq> key_of sub r) rs)) rs"
    by (rule subseq_order.trans)
  then show ?case by simp
qed

text \<open>
  C5 (amended). The Sources' de-duplication, \<^verbatim>\<open>drop_duplicates\<close> on the conflict-key
  columns (\<open>tx_hash\<close> in \<^verbatim>\<open>_parse_transactions\<close>, \<open>wallet_address\<close> in Dune's \<^verbatim>\<open>extract\<close>),
  keeps for every key exactly one row, the first-occurring one, in the original order, and
  drops the later ones.
\<close>

theorem drop_duplicates_keeps_first:
  assumes "df_drop_duplicates sub df = Inr df'"
  shows "columns df' = columns df
       \<and> subseq (records df') (records df)
       \<and> distinct (map (key_of sub) (records df'))
       \<and> key_of sub ` set (records df') = key_of sub ` set (records df)
       \<and> (\<forall>r \<in> set (records df'). find (\<lambda>x. key_of sub x = key_of sub r) (records df) = Some r)"
proof -
  from assms have df': "df' = df\<lparr>records := drop_duplicates sub (records df)\<rparr>"
    by (cases "records df = []") (auto simp: df_drop_duplicates_def split: list.splits)
  show ?thesis
    unfolding df'
    by (simp add: subseq_drop_duplicates distinct_drop_duplicates keys_drop_duplicates
          first_drop_duplicates)
qed

lemma parse_transactions_dedup:
  "parse_transactions raw protocol_name = Inr df \<Longrightarrow>
   \<exists>rows. rows_of raw protocol_name = Inr rows \<and>
          df = \<lparr>columns = (if rows = [] then [] else tx_columns),
                records = drop_duplicates [''tx_hash''] rows\<rparr>"
  by (auto simp: parse_transactions_def df_drop_duplicates_def DataFrame_def tx_columns_def
        split: sum.splits list.splits if_splits)

lemma dune_deduplicate_dedup:
  "dune_deduplicate df = Inr df' \<Longrightarrow>
   df' = df\<lparr>records := drop_duplicates [''wallet_address''] (records df)\<rparr>"
  by (cases "records df = []")
     (auto simp: dune_deduplicate_def df_drop_duplicates_def split: list.splits)

text \<open>
  C5 (as stated, refuted). Two raw transactions with the same hash and different values:
  the parsed frame holds the value of the first, not of the last.
\<close>

theorem parse_transactions_keeps_first_counterexample:
  "map_sum id (\<lambda>df. map (\<lambda>r. (r ''tx_hash'', r ''value_wei'')) (records df))
     (parse_transactions
        [Obj [''hash'' \<mapsto> ''0xdup'', ''value'' \<mapsto> ''1''],
         Obj [''hash'' \<mapsto> ''0xdup'', ''value'' \<mapsto> ''2'']] ''Uniswap V3'')
   = Inr [(Some (TextCell ''0xdup''), Some (TextCell ''1''))]"
  by (simp add: parse_transactions_def row_of_def int_field_def dict_get_def or_zero_def
        lower_def DataFrame_def tx_columns_def df_drop_duplicates_def key_of_def
        METHOD_NAMES_def py_int_eval)

theorem drop_duplicates_keeps_first_witness:
  "df_drop_duplicates [''wallet_address'']
      \<lparr>columns = [''wallet_address'', ''label''],
       records = [[''wallet_address'' \<mapsto> ''0xabc'', ''label'' \<mapsto> ''whale''],
                  [''wallet_address'' \<mapsto> ''0xabc'', ''label'' \<mapsto> ''retail_trader'']]\<rparr>
    = Inr \<lparr>columns = [''wallet_address'', ''label''],
           records = [[''wallet_address'' \<mapsto> ''0xabc'', ''label'' \<mapsto> ''whale'']]\<rparr>
   \<and> subseq [[''wallet_address'' \<mapsto> ''0xabc'', ''label'' \<mapsto> ''whale'']]
        [[''wallet_address'' \<mapsto> ''0xabc'', ''label'' \<mapsto> ''whale''],
         [''wallet_address'' \<mapsto> ''0xabc'', ''label'' \<mapsto> ''retail_trader'']]"
proof -
  have h: "df_drop_duplicates [''wallet_address'']
      \<lparr>columns = [''wallet_address'', ''label''],
       records = [[''wallet_address'' \<mapsto> ''0xabc'', ''label'' \<mapsto> ''whale''],
                  [''wallet_address'' \<mapsto> ''0xabc'', ''label'' \<mapsto> ''retail_trader'']]\<rparr>
    = Inr \<lparr>columns = [''wallet_address'', ''label''],
           records = [[''wallet_address'' \<mapsto> ''0xabc'', ''label'' \<mapsto> ''whale'']]\<rparr>"
    by (simp add: df_drop_duplicates_def key_of_def)
  from drop_duplicates_keeps_first [OF h] h show ?thesis by simp
qed

section \<open>Pagination\<close>

lemma paginate_stop:
  "page_step (fetch (params a cb eb pg ps)) ps all = Stop r \<Longrightarrow>
   paginate fetch a eb ps all cb pg issued = Some (r, issued @ [params a cb eb pg ps])"
  by (subst paginate.simps) simp


lemma page_step_short:
  "status d = Some ''1'' \<Longrightarrow> int (length (items_of (result d))) < ps \<Longrightarrow>
   page_step (Inr (Dict d)) ps all = Stop (Inr (all @ items_of (result d)))"
  by (simp add: page_step_def)

text \<open>
  C6. Wherever the loop stands, if the page fetched (a response with status \<^verbatim>\<open>"1"\<close>) has
  strictly fewer items than the requested page size, the loop ends: the items of that page
  are appended to the transactions gathered, and the request for that page is the last one
  issued.
\<close>

theorem short_page_is_final:
  assumes "fetch (params a cb eb pg ps) = Inr (Dict d)"
    and "status d = Some ''1''"
    and "int (length (items_of (result d))) < ps"
  shows "paginate fetch a eb ps all cb pg issued =
         Some (Inr (all @ items_of (result d)), issued @ [params a cb eb pg ps])"
  using assms by (simp add: paginate_stop page_step_short)

lemma extract_transactions_short_first_page:
  assumes "fetch (params a sb eb 1 ps) = Inr (Dict d)"
    and "status d = Some ''1''"
    and "int (length (items_of (result d))) < ps"
  shows "extract_transactions fetch a p sb eb ps =
         Some (finish (Inr (items_of (result d))) p, [params a sb eb 1 ps])"
  using assms by (simp add: extract_transactions_def paginate_stop page_step_short)

theorem short_page_is_final_witness:
  "(\<lambda>rq. if page rq = 1
          then Inr (Dict \<lparr>status = Some ''1'', message = MessageText ''OK'',
                 result = ResultList [Obj [''hash'' \<mapsto> ''0xabc123'', ''blockNumber'' \<mapsto> ''19000000'']]\<rparr>)
          else Inl ConnectionError) (params ''0xE592'' 0 99999999 1 10000)
     = Inr (Dict \<lparr>status = Some ''1'', message = MessageText ''OK'',
                 result = ResultList [Obj [''hash'' \<mapsto> ''0xabc123'', ''blockNumber'' \<mapsto> ''19000000'']]\<rparr>)
   \<and> int (length (items_of (result \<lparr>status = Some ''1'', message = MessageText ''OK'',
                 result = ResultList [Obj [''hash'' \<mapsto> ''0xabc123'', ''blockNumber'' \<mapsto> ''19000000'']]\<rparr>))) < 10000
   \<and> paginate (\<lambda>rq. if page rq = 1
          then Inr (Dict \<lparr>status = Some ''1'', message = MessageText ''OK'',
                 result = ResultList [Obj [''hash'' \<mapsto> ''0xabc123'', ''blockNumber'' \<mapsto> ''19000000'']]\<rparr>)
          else Inl ConnectionError) ''0xE592'' 99999999 10000 [] 0 1 []
     = Some (Inr [Obj [''hash'' \<mapsto> ''0xabc123'', ''blockNumber'' \<mapsto> ''19000000'']],
             [params ''0xE592'' 0 99999999 1 10000])"
proof -
  let ?d = "\<lparr>status = Some ''1'', message = MessageText ''OK'',
     result = ResultList [Obj [''hash'' \<mapsto> ''0xabc123'', ''blockNumber'' \<mapsto> ''19000000'']]\<rparr>"
  let ?fetch = "\<lambda>rq. if page rq = 1 then Inr (Dict ?d) else Inl ConnectionError"
  have h1: "?fetch (params ''0xE592'' 0 99999999 1 10000) = Inr (Dict ?d)"
    by (simp add: params_def)
  have h2: "status ?d = Some ''1''" by simp
  have h3: "int (length (items_of (result ?d))) < 10000" by (simp add: items_of_def)
  from short_page_is_final [where fetch = "?fetch" and a = "''0xE592''" and cb = 0
      and eb = 99999999 and pg = 1 and ps = 10000 and d = "?d" and all = "[]" and issued = "[]"]
    h1 h2 h3
  have "paginate ?fetch ''0xE592'' 99999999 10000 [] 0 1 [] =
        Some (Inr ([] @ items_of (result ?d)), [] @ [params ''0xE592'' 0 99999999 1 10000])"
    by blast
  with h1 h3 show ?thesis
    by (simp add: items_of_def)
qed


text \<open>
  The one way a status other than \<^verbatim>\<open>"1"\<close> does raise: a message that is null, a number or a
  boolean makes the test on it a \<^verbatim>\<open>TypeError\<close>, which leaves the method.
\<close>

lemma scalar_message_raises:
  assumes "fetch (params a cb eb pg ps) = Inr (Dict d)"
    and "status d \<noteq> Some ''1''" and "message d = MessageScalar"
  shows "paginate fetch a eb ps all cb pg issued =
         Some (Inl TypeError, issued @ [params a cb eb pg ps])"
  using assms by (simp add: paginate_stop page_step_def no_transactions_in_def)








section \<open>The orchestrator\<close>

lemma tables_log_run: "tables (log_run name st ex ld started err s) = tables s"
  by (simp add: log_run_def split: option.splits)

lemma pipeline_runs_log_run:
  "pipeline_runs (log_run name st ex ld started err s) =
   map_option (\<lambda>rs. rs @ [\<lparr>extractor_name = name, run_status = st, rows_extracted = ex,
      rows_loaded = ld, started_at = started, error_message = err\<rparr>]) (pipeline_runs s)"
  by (simp add: log_run_def split: option.splits)

lemma failed_in_status:
  "sublist ''failed'' ''failed''" "\<not> sublist ''failed'' ''empty''" "\<not> sublist ''failed'' ''success''"
  by (simp_all add: sublist_code)

text \<open>
  C7. When \<^verbatim>\<open>extract()\<close> returns zero rows, \<^verbatim>\<open>_run_extractor\<close> (given its loader) reports
  the source as \<open>empty\<close>, a status that is neither \<open>success\<close> nor counted as \<open>failed\<close>, with
  zero rows; it leaves every data table as it was, and its only effect on the store is the
  audit row \<^verbatim>\<open>log_run\<close> adds, with \<open>rows_extracted = 0\<close> and \<open>rows_loaded = 0\<close>.
\<close>

theorem empty_extraction_marked_empty:
  assumes "extract_df ex (db w) = Inr df" and "records df = []"
  shows "run_extractor clock ex (Some l) name w =
           (Inr \<lparr>summary_source = name, summary_status = ''empty'', summary_rows = 0,
                 summary_error = None\<rparr>,
            w\<lparr>ticks := ticks w + 1,
              db := log_run name ''partial'' 0 0 (clock (ticks w)) None (db w)\<rparr>)
       \<and> tables (db (snd (run_extractor clock ex (Some l) name w))) = tables (db w)
       \<and> pipeline_runs (db (snd (run_extractor clock ex (Some l) name w))) =
           map_option (\<lambda>rs. rs @ [\<lparr>extractor_name = name, run_status = ''partial'',
              rows_extracted = 0, rows_loaded = 0, started_at = clock (ticks w),
              error_message = None\<rparr>]) (pipeline_runs (db w))
       \<and> \<not> sublist ''failed'' ''empty'' \<and> ''empty'' \<noteq> ''success''"
proof -
  have run: "run_extractor clock ex (Some l) name w =
           (Inr \<lparr>summary_source = name, summary_status = ''empty'', summary_rows = 0,
                 summary_error = None\<rparr>,
            w\<lparr>ticks := ticks w + 1,
              db := log_run name ''partial'' 0 0 (clock (ticks w)) None (db w)\<rparr>)"
    using assms by (simp add: run_extractor_def try_block_def validate_def df_empty_def Let_def)
  show ?thesis
    unfolding run by (simp add: tables_log_run pipeline_runs_log_run failed_in_status)
qed

lemma try_block_no_loader:
  "\<exists>e. try_block clock ex None name started w = (Inl e, w)"
  by (auto simp: try_block_def Let_def split: sum.splits)

lemma run_extractor_no_loader:
  "run_extractor clock ex None name w = (Inl AttributeError, w\<lparr>ticks := ticks w + 1\<rparr>)"
proof -
  obtain e where "try_block clock ex None name (clock (ticks w)) (w\<lparr>ticks := ticks w + 1\<rparr>)
                  = (Inl e, w\<lparr>ticks := ticks w + 1\<rparr>)"
    using try_block_no_loader by blast
  then show ?thesis by (simp add: run_extractor_def Let_def)
qed

lemma run_all_no_loader:
  "sel \<noteq> [] \<Longrightarrow> run_all clock None sel w acc = (Inl AttributeError, w\<lparr>ticks := ticks w + 1\<rparr>)"
  by (cases sel) (auto simp: run_extractor_no_loader)

text \<open>
  C8 (the code at the failing input). A dry run of one source never completes: whatever the
  extractor returns, the first use of the loader, which is \<^verbatim>\<open>None\<close>, raises
  \<^verbatim>\<open>AttributeError\<close>, the handler raises it again, and it leaves \<^verbatim>\<open>run\<close> before any summary
  is reported.
\<close>

theorem dry_run_single_source_raises:
  "run clock extractors (Some ''etherscan'') True w =
     (Inl AttributeError, w\<lparr>ticks := ticks w + 1\<rparr>)"
  by (simp add: run_def select_sources_def source_names_def run_extractor_no_loader)

text \<open>
  C3 (the code at the failing input). A dry run over all six sources ends in the first one:
  \<^verbatim>\<open>AttributeError\<close> leaves \<^verbatim>\<open>run\<close> after a single clock reading, so no sibling source is
  started and no summary is aggregated.
\<close>

theorem dry_run_aborts_first_source:
  "run clock extractors None True w = (Inl AttributeError, w\<lparr>ticks := ticks w + 1\<rparr>)"
  by (simp add: run_def select_sources_def source_names_def run_extractor_no_loader)

text \<open>
  With a loader, by contrast, every selected source is run and summarised in order, whatever
  the earlier ones did, and the exit code is 1 exactly when some source ended \<open>failed\<close>.
\<close>

lemma run_extractor_with_loader:
  "\<exists>r w'. run_extractor clock ex (Some l) name w = (Inr r, w') \<and> summary_source r = name
          \<and> summary_status r \<in> {''empty'', ''success'', ''failed''}"
proof (cases "try_block clock ex (Some l) name (clock (ticks w)) (w\<lparr>ticks := ticks w + 1\<rparr>)")
  case (Pair res w')
  show ?thesis
  proof (cases res)
    case (Inl e)
    with Pair show ?thesis by (simp add: run_extractor_def Let_def)
  next
    case (Inr r)
    with Pair have "summary_source r = name \<and> summary_status r \<in> {''empty'', ''success''}"
      by (auto simp: try_block_def Let_def split: sum.splits if_splits prod.splits)
    with Pair Inr show ?thesis by (auto simp: run_extractor_def Let_def)
  qed
qed

lemma run_all_with_loader:
  "\<exists>rs w'. run_all clock (Some l) sel w acc = (Inr (acc @ rs), w')
      \<and> map summary_source rs = map fst sel
      \<and> (\<forall>r \<in> set rs. summary_status r \<in> {''empty'', ''success'', ''failed''})"
proof (induction sel arbitrary: w acc)
  case Nil
  then show ?case by simp
next
  case (Cons a sel)
  obtain name ex where a: "a = (name, ex)" by (cases a)
  obtain r w1 where r: "run_extractor clock ex (Some l) name w = (Inr r, w1)"
    "summary_source r = name" "summary_status r \<in> {''empty'', ''success'', ''failed''}"
    using run_extractor_with_loader [of clock ex l name w] by blast
  obtain rs w' where rs: "run_all clock (Some l) sel w1 (acc @ [r]) = (Inr ((acc @ [r]) @ rs), w')"
    "map summary_source rs = map fst sel"
    "\<forall>r \<in> set rs. summary_status r \<in> {''empty'', ''success'', ''failed''}"
    using Cons.IH [of w1 "acc @ [r]"] by blast
  have "run_all clock (Some l) (a # sel) w acc = (Inr (acc @ (r # rs)), w')"
    using a r(1) rs(1) by simp
  moreover have "map summary_source (r # rs) = map fst (a # sel)"
    using a r(2) rs(2) by simp
  moreover have "\<forall>x \<in> set (r # rs). summary_status x \<in> {''empty'', ''success'', ''failed''}"
    using r(3) rs(3) by simp
  ultimately show ?case by blast
qed

lemma run_with_loader:
  assumes "select_sources extractors src = Some sel"
  shows "\<exists>rep w'. run clock extractors src False w = (Inr rep, w')
      \<and> map summary_source (results rep) = map fst sel
      \<and> (exit_code rep = 1 \<longleftrightarrow> (\<exists>r \<in> set (results rep). summary_status r = ''failed''))
      \<and> (exit_code rep = 0 \<longleftrightarrow> \<not> (\<exists>r \<in> set (results rep). summary_status r = ''failed''))"
proof -
  obtain rs w' where rs: "run_all clock (Some PostgresLoader) sel w [] = (Inr ([] @ rs), w')"
    "map summary_source rs = map fst sel"
    "\<forall>r \<in> set rs. summary_status r \<in> {''empty'', ''success'', ''failed''}"
    using run_all_with_loader [of clock PostgresLoader sel w "[]"] by blast
  have "sublist ''failed'' (summary_status r) \<longleftrightarrow> summary_status r = ''failed''"
    if "r \<in> set rs" for r
    using rs(3) that failed_in_status by auto
  then have "filter (\<lambda>r. sublist ''failed'' (summary_status r)) rs
             = filter (\<lambda>r. summary_status r = ''failed'') rs"
    by (intro filter_cong) auto
  moreover have "filter (\<lambda>r. summary_status r = ''failed'') rs \<noteq> []
                 \<longleftrightarrow> (\<exists>r \<in> set rs. summary_status r = ''failed'')"
    by (simp add: filter_empty_conv)
  ultimately show ?thesis
    using assms rs(1,2) by (simp add: run_def)
qed

theorem empty_extraction_marked_empty_witness:
  "extract_df \<lparr>extract_df = (\<lambda>s. Inr (empty_frame :: string dataframe)),
               target_table = ''etherscan_transactions''\<rparr>
      (db \<lparr>db = \<lparr>tables = Map.empty, pipeline_runs = Some []\<rparr>, ticks = 0\<rparr>) = Inr empty_frame
   \<and> records (empty_frame :: string dataframe) = []
   \<and> run_extractor (\<lambda>n. \<lparr>micros = 1700000000000000 + int n,
                  timestamp = \<lparr>mantissa = 1700000000, exponent = 0\<rparr>\<rparr>)
        \<lparr>extract_df = (\<lambda>s. Inr (empty_frame :: string dataframe)),
         target_table = ''etherscan_transactions''\<rparr>
        (Some PostgresLoader) ''etherscan''
        \<lparr>db = \<lparr>tables = Map.empty, pipeline_runs = Some []\<rparr>, ticks = 0\<rparr>
     = (Inr \<lparr>summary_source = ''etherscan'', summary_status = ''empty'', summary_rows = 0,
             summary_error = None\<rparr>,
        \<lparr>db = \<lparr>tables = Map.empty,
               pipeline_runs = Some [\<lparr>extractor_name = ''etherscan'', run_status = ''partial'',
                  rows_extracted = 0, rows_loaded = 0, started_at = \<lparr>micros = 1700000000000000,
                    timestamp = \<lparr>mantissa = 1700000000, exponent = 0\<rparr>\<rparr>,
                  error_message = None\<rparr>]\<rparr>,
         ticks = 1\<rparr>)"
proof -
  let ?ex = "\<lparr>extract_df = (\<lambda>s. Inr (empty_frame :: string dataframe)),
              target_table = ''etherscan_transactions''\<rparr>"
  let ?w = "\<lparr>db = \<lparr>tables = Map.empty, pipeline_runs = Some []\<rparr>, ticks = 0\<rparr> :: string world"
  have h1: "extract_df ?ex (db ?w) = Inr empty_frame" by simp
  have h2: "records (empty_frame :: string dataframe) = []" by (simp add: empty_frame_def)
  from empty_extraction_marked_empty [OF h1 h2, of "\<lambda>n. \<lparr>micros = 1700000000000000 + int n,
                  timestamp = \<lparr>mantissa = 1700000000, exponent = 0\<rparr>\<rparr>"
      PostgresLoader "''etherscan''"] h1 h2
  show ?thesis by (simp add: log_run_def)
qed

text \<open>
  A source name outside the conflict-key map makes the orchestrator pass no conflict
  columns: the run is reported as a success with the frame's row count, and the target table
  is unchanged.
\<close>

lemma upsert_no_key':
  assumes "\<not> df_empty df"
  shows "upsert df table None schema now s =
         (Inr (len df), s\<lparr>tables := (tables s)(schema @ ''.'' @ temp_table_name table now := None)\<rparr>)"
  using assms by (simp add: upsert_no_key)

lemma run_extractor_unmapped_source:
  assumes "conflict_map name = None" and "extract_df ex (db w) = Inr df" and "\<not> df_empty df"
  shows "\<exists>w'. run_extractor clock ex (Some l) name w =
           (Inr \<lparr>summary_source = name, summary_status = ''success'', summary_rows = len df,
                 summary_error = None\<rparr>, w')
         \<and> tables (db w') (''raw'' @ ''.'' @ target_table ex)
            = tables (db w) (''raw'' @ ''.'' @ target_table ex)"
  using assms temp_table_name_neq(2) [of "target_table ex"]
  by (simp add: run_extractor_def try_block_def validate_def Let_def upsert_no_key'
        tables_log_run)

lemma conflict_map_unmapped: "name \<notin> set source_names \<Longrightarrow> conflict_map name = None"
  by (simp add: conflict_map_def source_names_def)

end
